theory Spec2Isabelle
  imports Complex_Main "HOL-Library.Multiset" "HOL-Library.AList"
begin

section \<open>Values, dictionaries and errors\<close>

text \<open>
  The module \<^verbatim>\<open>easytorch/core/optimizer_builder.py\<close> holds two functions,
  \<^verbatim>\<open>build_optim\<close> and \<^verbatim>\<open>build_lr_scheduler\<close>. Every exception the Python can raise is a
  value of \<open>py_error\<close>, and a function that can raise returns \<open>py_error + 'a\<close>.
\<close>

datatype py_error = KeyError | AttributeError | TypeError | ValueError

text \<open>
  The values an override dictionary can hold. Numbers are taken up to Python's \<^verbatim>\<open>==\<close>,
  under which \<^verbatim>\<open>1\<close>, \<^verbatim>\<open>1.0\<close> and \<^verbatim>\<open>True\<close> are one dictionary key and one set element; NaN is
  left out. A list is the one unhashable value. \<open>TensorV i\<close> is the tensor object with the
  identity \<open>i\<close>, which may be a parameter of the model (also the one that carries the
  dictionary) or another tensor: a tensor is hashed by its identity, and here two tensors
  are equal when they are the same object. (Between two different tensors the library's
  \<^verbatim>\<open>==\<close> is elementwise; where line 79 gets another answer from it than the identity gives,
  the call raises or returns the optimizer it returns here.)
\<close>

datatype hval =
  Num rat | Str string | NoneV | Tuple "hval list" | ListV "hval list" | TensorV nat

fun hashable :: "hval \<Rightarrow> bool" where
  "hashable (Num r) = True"
| "hashable (Str s) = True"
| "hashable NoneV = True"
| "hashable (Tuple vs) = list_all hashable vs"
| "hashable (ListV vs) = False"
| "hashable (TensorV i) = True"

text \<open>
  A Python \<^verbatim>\<open>dict\<close> with string keys is an association list in insertion order; a
  dictionary has no key twice. \<^verbatim>\<open>d[k] = v\<close> is \<open>AList.update\<close>: an existing key keeps
  its place, a new one goes to the end.
\<close>

type_synonym hp_dict = "(string \<times> hval) list"

text \<open>
  A trainable parameter is an object with an identity; \<open>optim_attr\<close> is its \<^verbatim>\<open>_optim\<close>
  attribute, \<open>None\<close> when the attribute is not set.
\<close>

record param =
  pid :: nat
  optim_attr :: "hp_dict option"

text \<open>
  Python documents dictionary equality as having the same (key, value) pairs, regardless
  of order.
\<close>

definition dict_eq :: "hp_dict \<Rightarrow> hp_dict \<Rightarrow> bool" where
  "dict_eq a b = (set a = set b)"

text \<open>
  \<^verbatim>\<open>frozenset(hp.items())\<close> is kept as the list of its items and compared as a set:
  \<^verbatim>\<open>==\<close> is equality of the element sets and \<^verbatim>\<open><\<close> is proper inclusion.
\<close>

definition frozenset_eq :: "hp_dict \<Rightarrow> hp_dict \<Rightarrow> bool" where
  "frozenset_eq a b = (set a = set b)"

definition frozenset_lt :: "hp_dict \<Rightarrow> hp_dict \<Rightarrow> bool" where
  "frozenset_lt a b = (set a \<subset> set b)"

text \<open>
  \<^verbatim>\<open>dict.fromkeys(it)\<close> inserts the keys one by one; a key equal to one already there
  is dropped, so the first of each class stays, in the order of first appearance.
\<close>

definition fromkeys_insert :: "hp_dict list \<Rightarrow> hp_dict \<Rightarrow> hp_dict list" where
  "fromkeys_insert acc x = (if list_ex (\<lambda>y. frozenset_eq y x) acc then acc else acc @ [x])"

definition dict_fromkeys :: "hp_dict list \<Rightarrow> hp_dict list" where
  "dict_fromkeys xs = foldl fromkeys_insert [] xs"

section \<open>The interpreter's sort\<close>

text \<open>
  \<^verbatim>\<open>sorted\<close> is CPython's \<^verbatim>\<open>list.sort\<close> (here as in versions up to 3.12), which compares
  with \<^verbatim>\<open><\<close> only. On a list of fewer than 64 elements it finds the run the list starts with (\<^verbatim>\<open>count_run\<close>: either
  non-descending, or strictly descending and then reversed) and inserts the remaining
  elements one by one at the place a binary search gives (\<^verbatim>\<open>binarysort\<close>). Longer lists
  are cut into such runs, which are then merged; that part is not modelled, and
  \<open>py_sorted\<close> treats every list as one run.
\<close>

fun count_desc :: "('a \<Rightarrow> 'a \<Rightarrow> bool) \<Rightarrow> 'a \<Rightarrow> 'a list \<Rightarrow> nat" where
  "count_desc lt prev [] = 0"
| "count_desc lt prev (x # xs) = (if lt x prev then Suc (count_desc lt x xs) else 0)"

fun count_asc :: "('a \<Rightarrow> 'a \<Rightarrow> bool) \<Rightarrow> 'a \<Rightarrow> 'a list \<Rightarrow> nat" where
  "count_asc lt prev [] = 0"
| "count_asc lt prev (x # xs) = (if lt x prev then 0 else Suc (count_asc lt x xs))"

fun count_run :: "('a \<Rightarrow> 'a \<Rightarrow> bool) \<Rightarrow> 'a list \<Rightarrow> nat \<times> bool" where
  "count_run lt [] = (0, False)"
| "count_run lt [x] = (1, False)"
| "count_run lt (x # y # zs) =
     (if lt y x then (2 + count_desc lt y zs, True) else (2 + count_asc lt y zs, False))"

function bisect :: "('a \<Rightarrow> 'a \<Rightarrow> bool) \<Rightarrow> 'a \<Rightarrow> 'a list \<Rightarrow> nat \<Rightarrow> nat \<Rightarrow> nat" where
  "bisect lt pivot xs l r =
     (if l < r
      then (let p = l + (r - l) div 2
            in if lt pivot (xs ! p) then bisect lt pivot xs l p
               else bisect lt pivot xs (Suc p) r)
      else l)"
  by pat_completeness auto
termination
  by (relation "measure (\<lambda>(lt, pivot, xs, l, r). r - l)") auto

declare bisect.simps [simp del]

fun binarysort :: "('a \<Rightarrow> 'a \<Rightarrow> bool) \<Rightarrow> 'a list \<Rightarrow> 'a list \<Rightarrow> 'a list" where
  "binarysort lt done [] = done"
| "binarysort lt done (pivot # rest) =
     (let l = bisect lt pivot done 0 (length done)
      in binarysort lt (take l done @ pivot # drop l done) rest)"

definition py_sorted :: "('a \<Rightarrow> 'a \<Rightarrow> bool) \<Rightarrow> 'a list \<Rightarrow> 'a list" where
  "py_sorted lt xs =
     (case count_run lt xs of
        (n, descending) \<Rightarrow>
          binarysort lt (if descending then rev (take n xs) else take n xs) (drop n xs))"

section \<open>Configuration dictionaries on a heap\<close>

text \<open>
  The two configuration dictionaries are mutable objects that the caller keeps, so they
  live on a heap: a list of dictionaries, an address being an index. A value stored in
  such a dictionary is a plain value, a class, a reference to another dictionary, or some
  other object \<open>'o\<close> (for the scheduler's \<^verbatim>\<open>PARAM\<close> copy: the optimizer). Python has no
  reference to a missing object; for an address outside the heap the builders answer
  \<^verbatim>\<open>TypeError\<close>.
\<close>

type_synonym addr = nat

datatype pytype = PyType string

datatype 'o cval = Val hval | TypeObj pytype | DictRef addr | Obj 'o

type_synonym 'o dict = "(string \<times> 'o cval) list"

type_synonym 'o heap = "'o dict list"

definition heap_get :: "'o heap \<Rightarrow> addr \<Rightarrow> 'o dict option" where
  "heap_get h a = (if a < length h then Some (h ! a) else None)"

text \<open>\<^verbatim>\<open>d.copy()\<close> allocates a new dictionary with the same items and returns its address.\<close>

definition dict_copy :: "'o heap \<Rightarrow> 'o dict \<Rightarrow> addr \<times> 'o heap" where
  "dict_copy h d = (length h, h @ [d])"

text \<open>
  \<^verbatim>\<open>PARAM\<close> that is not a dictionary: a list has a \<^verbatim>\<open>copy\<close> method, and its copy is then
  refused as keyword arguments (\<^verbatim>\<open>**\<close>) and as the target of \<^verbatim>\<open>['optimizer'] = ...\<close> with a
  \<^verbatim>\<open>TypeError\<close>; the other values have no \<^verbatim>\<open>copy\<close> attribute.
\<close>

definition not_a_dict :: "'o cval \<Rightarrow> py_error" where
  "not_a_dict v = (case v of Val (ListV xs) \<Rightarrow> TypeError | _ \<Rightarrow> AttributeError)"

text \<open>
  The lookup of lines 52 to 58 and 132 to 138: a class is taken as it is; a name is looked
  up with \<^verbatim>\<open>hasattr\<close>/\<^verbatim>\<open>getattr\<close> in the framework's module and, if it is not there, with
  \<^verbatim>\<open>getattr\<close> in the package's own module, which raises \<^verbatim>\<open>AttributeError\<close> for a name it
  does not have. \<^verbatim>\<open>hasattr\<close> raises \<^verbatim>\<open>TypeError\<close> for a name that is not a string. The two
  modules are parameters: what they hold is not part of this file, and what a module has
  under a name is taken to be a class.
\<close>

definition resolve_type ::
  "(string \<rightharpoonup> pytype) \<Rightarrow> (string \<rightharpoonup> pytype) \<Rightarrow> 'o cval \<Rightarrow> py_error + pytype" where
  "resolve_type builtin custom ty =
     (case ty of
        TypeObj t \<Rightarrow> Inr t
      | Val (Str name) \<Rightarrow>
          (case builtin name of
             Some t \<Rightarrow> Inr t
           | None \<Rightarrow> (case custom name of Some t \<Rightarrow> Inr t | None \<Rightarrow> Inl AttributeError))
      | _ \<Rightarrow> Inl TypeError)"

section \<open>The optimizer object\<close>

text \<open>
  What \<^verbatim>\<open>build_optim\<close> uses of the framework's optimizer base class: the constructor, which
  refuses an empty parameter list and makes group 0 of the parameters it is given, and
  \<^verbatim>\<open>add_param_group\<close>. A stored group is its parameter list and its other entries. A
  concrete optimizer class adds the defaults of its own signature and its own checks of
  the arguments; these are not modelled, and \<open>defaults\<close> are the keyword arguments of the
  call.
\<close>

record 'o param_group =
  params :: "param list"
  hypers :: "'o dict"

record 'o optimizer =
  otype :: pytype
  defaults :: "'o dict"
  param_groups :: "'o param_group list"

datatype gval = ParamList "param list" | HVal hval

text \<open>
  What \<^verbatim>\<open>add_param_group\<close> makes of a value under \<^verbatim>\<open>'params'\<close>: a tensor is a list of one; any
  other value is iterated (\<^verbatim>\<open>list(params)\<close>, a \<^verbatim>\<open>TypeError\<close> for a value that cannot be), and
  an element that is not a tensor is refused with a \<^verbatim>\<open>TypeError\<close>. The elements of a string
  are strings.
\<close>

fun tensor_ids :: "hval list \<Rightarrow> py_error + nat list" where
  "tensor_ids [] = Inr []"
| "tensor_ids (TensorV i # vs) =
     (case tensor_ids vs of Inl e \<Rightarrow> Inl e | Inr ids \<Rightarrow> Inr (i # ids))"
| "tensor_ids (v # vs) = Inl TypeError"

fun group_tensors :: "hval \<Rightarrow> py_error + nat list" where
  "group_tensors (TensorV i) = Inr [i]"
| "group_tensors (Tuple vs) = tensor_ids vs"
| "group_tensors (ListV vs) = tensor_ids vs"
| "group_tensors (Str s) = (if s = [] then Inr [] else Inl TypeError)"
| "group_tensors (Num r) = Inl TypeError"
| "group_tensors NoneV = Inl TypeError"

text \<open>
  The tensor object with a given identity, as a \<open>param\<close>: the parameter of the model with
  that identity, and for a tensor that is no parameter of the model an object without
  \<^verbatim>\<open>_optim\<close> (the builder reads the attribute of the model's parameters only).
\<close>

definition tensor_object :: "param list \<Rightarrow> nat \<Rightarrow> param" where
  "tensor_object known i =
     (case find (\<lambda>p. pid p = i) known of
        Some p \<Rightarrow> p
      | None \<Rightarrow> \<lparr>pid = i, optim_attr = None\<rparr>)"

definition group_params :: "param list \<Rightarrow> gval \<Rightarrow> py_error + param list" where
  "group_params known v =
     (case v of
        ParamList ps \<Rightarrow> Inr ps
      | HVal x \<Rightarrow>
          (case group_tensors x of
             Inl e \<Rightarrow> Inl e
           | Inr ids \<Rightarrow> Inr (map (tensor_object known) ids)))"

text \<open>
  \<^verbatim>\<open>add_param_group\<close> refuses, with a \<^verbatim>\<open>ValueError\<close>, a group with a tensor that an earlier
  group has; tensors are compared by identity.
\<close>

definition overlaps :: "param list \<Rightarrow> 'o param_group list \<Rightarrow> bool" where
  "overlaps ps gs = list_ex (\<lambda>p. pid p \<in> pid ` set (concat (map params gs))) ps"

definition setdefault :: "'o dict \<Rightarrow> string \<times> 'o cval \<Rightarrow> 'o dict" where
  "setdefault d kv = (if fst kv \<in> fst ` set d then d else d @ [kv])"

fun hyper_entries :: "(string \<times> gval) list \<Rightarrow> 'o dict" where
  "hyper_entries [] = []"
| "hyper_entries ((k, ParamList ps) # pg) = hyper_entries pg"
| "hyper_entries ((k, HVal v) # pg) =
     (if k = ''params'' then hyper_entries pg else (k, Val v) # hyper_entries pg)"

definition stored_group :: "'o dict \<Rightarrow> param list \<Rightarrow> (string \<times> gval) list \<Rightarrow> 'o param_group" where
  "stored_group dflts ps pg = \<lparr>params = ps, hypers = foldl setdefault (hyper_entries pg) dflts\<rparr>"

definition append_group :: "'o optimizer \<Rightarrow> 'o param_group \<Rightarrow> 'o optimizer" where
  "append_group opt g = opt\<lparr>param_groups := param_groups opt @ [g]\<rparr>"

text \<open>
  \<^verbatim>\<open>add_param_group(param_group)\<close>: the value under \<^verbatim>\<open>'params'\<close> is made a list of tensors,
  every default the group does not set is filled in, and the group is appended unless it
  shares a tensor with a group that is there. \<open>known\<close> are the tensor objects the
  identities stand for.
\<close>

definition add_param_group ::
  "param list \<Rightarrow> 'o optimizer \<Rightarrow> (string \<times> gval) list \<Rightarrow> py_error + 'o optimizer" where
  "add_param_group known opt pg =
     (case map_of pg ''params'' of
        None \<Rightarrow> Inl KeyError
      | Some v \<Rightarrow>
          (case group_params known v of
             Inl e \<Rightarrow> Inl e
           | Inr ps \<Rightarrow>
               if overlaps ps (param_groups opt) then Inl ValueError
               else Inr (append_group opt (stored_group (defaults opt) ps pg))))"

text \<open>
  \<^verbatim>\<open>optim_type(params, **optim_param)\<close>: a keyword \<^verbatim>\<open>params\<close> beside the positional one is a
  \<^verbatim>\<open>TypeError\<close> of the call itself.
\<close>

definition optimizer_init ::
  "param list \<Rightarrow> pytype \<Rightarrow> param list \<Rightarrow> 'o dict \<Rightarrow> py_error + 'o optimizer" where
  "optimizer_init known t ps kwargs =
     (if ''params'' \<in> fst ` set kwargs then Inl TypeError
      else if ps = [] then Inl ValueError
      else add_param_group known \<lparr>otype = t, defaults = kwargs, param_groups = []\<rparr>
             [(''params'', ParamList ps)])"

section \<open>build_optim\<close>

text \<open>
  Lines 73 to 77: the \<^verbatim>\<open>_optim\<close> dictionaries of the parameters that have one, each made a
  frozenset of its items (a \<^verbatim>\<open>TypeError\<close> if a value cannot be hashed), without
  repetitions, sorted, and each made a dictionary again. The dictionary made of a
  frozenset has the frozenset's items in the order of the list that stands for it; the
  comparisons and lookups that follow do not look at that order.
\<close>

definition special_hps :: "param list \<Rightarrow> py_error + hp_dict list" where
  "special_hps all_parameters =
     (let hps = map (the \<circ> optim_attr) (filter (\<lambda>p. optim_attr p \<noteq> None) all_parameters)
      in if list_all (list_all (\<lambda>kv. hashable (snd kv))) hps
         then Inr (py_sorted frozenset_lt (dict_fromkeys hps))
         else Inl TypeError)"

text \<open>\<^verbatim>\<open>getattr(p, "_optim", None) == hp\<close>: \<^verbatim>\<open>None\<close> is equal to no dictionary.\<close>

definition has_hp :: "hp_dict \<Rightarrow> param \<Rightarrow> bool" where
  "has_hp hp p = (case optim_attr p of None \<Rightarrow> False | Some d \<Rightarrow> dict_eq d hp)"

text \<open>
  The dictionary display \<^verbatim>\<open>{"params": params, **hp}\<close>: the items of \<^verbatim>\<open>hp\<close> are stored after
  \<^verbatim>\<open>"params"\<close>, so a key \<^verbatim>\<open>"params"\<close> of \<^verbatim>\<open>hp\<close> replaces the parameter list.
\<close>

definition group_display :: "param list \<Rightarrow> hp_dict \<Rightarrow> (string \<times> gval) list" where
  "group_display ps hp =
     foldl (\<lambda>d kv. AList.update (fst kv) (HVal (snd kv)) d) [(''params'', ParamList ps)] hp"

text \<open>Lines 78 to 82, the loop over the distinct override dictionaries.\<close>

fun add_special_groups ::
  "param list \<Rightarrow> 'o optimizer \<Rightarrow> hp_dict list \<Rightarrow> py_error + 'o optimizer" where
  "add_special_groups all_parameters optimizer [] = Inr optimizer"
| "add_special_groups all_parameters optimizer (hp # hps) =
     (case add_param_group all_parameters optimizer
             (group_display (filter (has_hp hp) all_parameters) hp) of
        Inl e \<Rightarrow> Inl e
      | Inr optimizer' \<Rightarrow> add_special_groups all_parameters optimizer' hps)"

text \<open>
  \<^verbatim>\<open>build_optim(optim_cfg, model)\<close>, with the heap before the call and the address of
  \<^verbatim>\<open>optim_cfg\<close>; \<open>model\<close> is \<^verbatim>\<open>list(model.parameters())\<close>. It returns the optimizer or the
  exception, and the heap after the call. The summary that lines 85 to 91 print is not
  part of the result and is left out.
\<close>

definition build_optim ::
  "(string \<rightharpoonup> pytype) \<Rightarrow> (string \<rightharpoonup> pytype) \<Rightarrow> 'o heap \<Rightarrow> addr \<Rightarrow> param list
     \<Rightarrow> (py_error + 'o optimizer) \<times> 'o heap" where
  "build_optim optim easyoptim h optim_cfg model =
     (case heap_get h optim_cfg of
        None \<Rightarrow> (Inl TypeError, h)
      | Some cfg \<Rightarrow>
     (case map_of cfg ''TYPE'' of
        None \<Rightarrow> (Inl KeyError, h)
      | Some ty \<Rightarrow>
     (case resolve_type optim easyoptim ty of
        Inl e \<Rightarrow> (Inl e, h)
      | Inr optim_type \<Rightarrow>
     (case map_of cfg ''PARAM'' of
        None \<Rightarrow> (Inl KeyError, h)
      | Some (DictRef a) \<Rightarrow>
          (case heap_get h a of
             None \<Rightarrow> (Inl TypeError, h)
           | Some d \<Rightarrow>
               (case dict_copy h d of
                  (optim_param, h') \<Rightarrow>
                    (let all_parameters = model;
                         params = filter (\<lambda>p. optim_attr p = None) all_parameters
                     in case optimizer_init all_parameters optim_type params (h' ! optim_param) of
                          Inl e \<Rightarrow> (Inl e, h')
                        | Inr optimizer \<Rightarrow>
                            (case special_hps all_parameters of
                               Inl e \<Rightarrow> (Inl e, h')
                             | Inr hps \<Rightarrow> (add_special_groups all_parameters optimizer hps, h')))))
      | Some other \<Rightarrow> (Inl (not_a_dict other), h)))))"

section \<open>build_lr_scheduler\<close>

text \<open>
  The scheduler is the framework's: what is kept of \<^verbatim>\<open>scheduler_type(**scheduler_param)\<close>
  is the class and the keyword arguments it was called with.
\<close>

record 'o scheduler =
  stype :: pytype
  skwargs :: "'o dict"

definition build_lr_scheduler ::
  "(string \<rightharpoonup> pytype) \<Rightarrow> (string \<rightharpoonup> pytype) \<Rightarrow> 'o heap \<Rightarrow> addr \<Rightarrow> 'o
     \<Rightarrow> (py_error + 'o scheduler) \<times> 'o heap" where
  "build_lr_scheduler lr_scheduler easy_lr_scheduler h lr_scheduler_cfg optimizer =
     (case heap_get h lr_scheduler_cfg of
        None \<Rightarrow> (Inl TypeError, h)
      | Some cfg0 \<Rightarrow>
     (case map_of cfg0 ''TYPE'' of
        None \<Rightarrow> (Inl KeyError, h)
      | Some ty0 \<Rightarrow>
     (let h1 = h[lr_scheduler_cfg := AList.update ''TYPE'' ty0 cfg0];
          cfg = h1 ! lr_scheduler_cfg
      in
     (case map_of cfg ''TYPE'' of
        None \<Rightarrow> (Inl KeyError, h1)
      | Some ty \<Rightarrow>
     (case resolve_type lr_scheduler easy_lr_scheduler ty of
        Inl e \<Rightarrow> (Inl e, h1)
      | Inr scheduler_type \<Rightarrow>
     (case map_of cfg ''PARAM'' of
        None \<Rightarrow> (Inl KeyError, h1)
      | Some (DictRef a) \<Rightarrow>
          (case heap_get h1 a of
             None \<Rightarrow> (Inl TypeError, h1)
           | Some d \<Rightarrow>
               (case dict_copy h1 d of
                  (scheduler_param, h2) \<Rightarrow>
                    (let h3 = h2[scheduler_param :=
                                   AList.update ''optimizer'' (Obj optimizer) (h2 ! scheduler_param)]
                     in (Inr \<lparr>stype = scheduler_type, skwargs = h3 ! scheduler_param\<rparr>, h3))))
      | Some other \<Rightarrow> (Inl (not_a_dict other), h1)))))))"

section \<open>The group the loop adds for one override dictionary\<close>

text \<open>
  When \<^verbatim>\<open>add_param_group\<close> accepts the dictionary that the loop hands it for \<open>hp\<close>, this is
  the group it stores; \<open>accepted_params\<close> is the parameter list of a group that is accepted.
\<close>

definition accepted_params :: "param list \<Rightarrow> (string \<times> gval) list \<Rightarrow> param list" where
  "accepted_params known pg =
     (case map_of pg ''params'' of
        None \<Rightarrow> []
      | Some v \<Rightarrow> (case group_params known v of Inl e \<Rightarrow> [] | Inr ps \<Rightarrow> ps))"

definition special_group :: "'o dict \<Rightarrow> param list \<Rightarrow> hp_dict \<Rightarrow> 'o param_group" where
  "special_group dflts all_parameters hp =
     (let pg = group_display (filter (has_hp hp) all_parameters) hp
      in stored_group dflts (accepted_params all_parameters pg) pg)"

text \<open>No tensor is in two groups.\<close>

definition disjoint_groups :: "'o param_group list \<Rightarrow> bool" where
  "disjoint_groups gs =
     (\<forall>i < length gs. \<forall>j < length gs.
        i \<noteq> j \<longrightarrow> pid ` set (params (gs ! i)) \<inter> pid ` set (params (gs ! j)) = {})"

section \<open>A small model and configuration\<close>

text \<open>
  One configuration on a heap (\<^verbatim>\<open>{'TYPE': 'SGD', 'PARAM': {'lr': 0.01}}\<close>), the two modules
  with one class each, and parameters with and without \<^verbatim>\<open>_optim\<close>.
\<close>

definition ex_builtin :: "string \<rightharpoonup> pytype" where
  "ex_builtin = [''SGD'' \<mapsto> PyType ''builtin.SGD'', ''StepLR'' \<mapsto> PyType ''builtin.StepLR'']"

definition ex_custom :: "string \<rightharpoonup> pytype" where
  "ex_custom = [''SGD'' \<mapsto> PyType ''custom.SGD'', ''Mine'' \<mapsto> PyType ''custom.Mine'']"

definition ex_heap :: "nat heap" where
  "ex_heap = [[(''TYPE'', Val (Str ''SGD'')), (''PARAM'', DictRef 1)],
              [(''lr'', Val (Num (1 / 100)))]]"

definition w_plain :: param where
  "w_plain = \<lparr>pid = 0, optim_attr = None\<rparr>"

definition w_lr1 :: param where
  "w_lr1 = \<lparr>pid = 1, optim_attr = Some [(''lr'', Num (1 / 10))]\<rparr>"

definition w_lr2 :: param where
  "w_lr2 = \<lparr>pid = 2, optim_attr = Some [(''lr'', Num (2 / 10))]\<rparr>"

definition w_lr1' :: param where
  "w_lr1' = \<lparr>pid = 3, optim_attr = Some [(''lr'', Num (1 / 10))]\<rparr>"

definition w_empty :: param where
  "w_empty = \<lparr>pid = 4, optim_attr = Some []\<rparr>"

definition w_params :: param where
  "w_params = \<lparr>pid = 5, optim_attr = Some [(''params'', Tuple [])]\<rparr>"

definition w_params' :: param where
  "w_params' = \<lparr>pid = 6, optim_attr = Some [(''params'', Tuple [])]\<rparr>"

definition w_ab :: param where
  "w_ab = \<lparr>pid = 7, optim_attr = Some [(''lr'', Num (1 / 10)), (''weight_decay'', Num 0)]\<rparr>"

definition w_ba :: param where
  "w_ba = \<lparr>pid = 8, optim_attr = Some [(''weight_decay'', Num 0), (''lr'', Num (1 / 10))]\<rparr>"

definition ex_model :: "param list" where
  "ex_model = [w_plain, w_lr1, w_ab, w_lr2, w_ba, w_empty, w_lr1']"

definition ex_run :: "(py_error + nat optimizer) \<times> nat heap" where
  "ex_run = build_optim ex_builtin ex_custom ex_heap 0 ex_model"

definition ex_opt :: "nat optimizer" where
  "ex_opt = projr (fst ex_run)"

text \<open>
  Three more configurations: a name that only the package's own module has, a class
  given as it is, and a name that neither module has.
\<close>

definition ex_heap_custom :: "nat heap" where
  "ex_heap_custom = [[(''TYPE'', Val (Str ''Mine'')), (''PARAM'', DictRef 1)],
                     [(''lr'', Val (Num (1 / 100)))]]"

definition ex_heap_class :: "nat heap" where
  "ex_heap_class = [[(''TYPE'', TypeObj (PyType ''user.Own'')), (''PARAM'', DictRef 1)],
                    [(''lr'', Val (Num (1 / 100)))]]"

definition ex_heap_unknown :: "nat heap" where
  "ex_heap_unknown = [[(''TYPE'', Val (Str ''Nowhere'')), (''PARAM'', DictRef 1)],
                      [(''lr'', Val (Num (1 / 100)))]]"

text \<open>
  A scheduler configuration (\<^verbatim>\<open>{'TYPE': 'StepLR', 'PARAM': {'step_size': 30}}\<close>); the
  optimizer handed to the scheduler builder is the object \<open>7\<close>.
\<close>

definition ex_sched_heap :: "nat heap" where
  "ex_sched_heap = [[(''TYPE'', Val (Str ''StepLR'')), (''PARAM'', DictRef 1)],
                    [(''step_size'', Val (Num 30))]]"

definition ex_sched_heap_custom :: "nat heap" where
  "ex_sched_heap_custom = [[(''TYPE'', Val (Str ''Mine'')), (''PARAM'', DictRef 1)],
                           [(''step_size'', Val (Num 30))]]"

definition ex_sched_heap_class :: "nat heap" where
  "ex_sched_heap_class = [[(''TYPE'', TypeObj (PyType ''user.Own'')), (''PARAM'', DictRef 1)],
                          [(''step_size'', Val (Num 30))]]"

text \<open>Models in which an override dictionary has the key \<^verbatim>\<open>params\<close>.\<close>

definition ex_run_params :: "(py_error + nat optimizer) \<times> nat heap" where
  "ex_run_params = build_optim ex_builtin ex_custom ex_heap 0 [w_plain, w_params]"

definition ex_run_params2 :: "(py_error + nat optimizer) \<times> nat heap" where
  "ex_run_params2 = build_optim ex_builtin ex_custom ex_heap 0 [w_plain, w_params, w_params']"

definition ex_run_params3 :: "(py_error + nat optimizer) \<times> nat heap" where
  "ex_run_params3 = build_optim ex_builtin ex_custom ex_heap 0 [w_plain, w_lr1, w_params]"

definition ex_run_custom :: "(py_error + nat optimizer) \<times> nat heap" where
  "ex_run_custom = build_optim ex_builtin ex_custom ex_heap_custom 0 ex_model"

definition ex_run_class :: "(py_error + nat optimizer) \<times> nat heap" where
  "ex_run_class = build_optim ex_builtin ex_custom ex_heap_class 0 ex_model"

definition ex_sched :: "(py_error + nat scheduler) \<times> nat heap" where
  "ex_sched = build_lr_scheduler ex_builtin ex_custom ex_sched_heap 0 7"

definition ex_sched_custom :: "(py_error + nat scheduler) \<times> nat heap" where
  "ex_sched_custom = build_lr_scheduler ex_builtin ex_custom ex_sched_heap_custom 0 7"

definition ex_sched_class :: "(py_error + nat scheduler) \<times> nat heap" where
  "ex_sched_class = build_lr_scheduler ex_builtin ex_custom ex_sched_heap_class 0 7"

text \<open>
  Models in which an override lists tensors under \<^verbatim>\<open>params\<close>: the parameter itself and
  another parameter of the model, and a tensor that is no parameter of the model.
\<close>

definition w_pair :: param where
  "w_pair = \<lparr>pid = 9, optim_attr = Some [(''params'', Tuple [TensorV 9, TensorV 10])]\<rparr>"

definition w_none :: param where
  "w_none = \<lparr>pid = 10, optim_attr = Some [(''params'', Tuple [])]\<rparr>"

definition w_out :: param where
  "w_out = \<lparr>pid = 11, optim_attr = Some [(''params'', Tuple [TensorV 99])]\<rparr>"

definition ex_run_pair :: "(py_error + nat optimizer) \<times> nat heap" where
  "ex_run_pair = build_optim ex_builtin ex_custom ex_heap 0 [w_plain, w_pair, w_none]"

definition ex_run_out :: "(py_error + nat optimizer) \<times> nat heap" where
  "ex_run_out = build_optim ex_builtin ex_custom ex_heap 0 [w_plain, w_out]"

section \<open>Removing repetitions and sorting keep the elements\<close>

lemma fromkeys_fold_sets:
  "set ` set (foldl fromkeys_insert acc xs) = set ` set acc \<union> set ` set xs"
proof (induction xs arbitrary: acc)
  case Nil
  show ?case by simp
next
  case (Cons x xs)
  have "set ` set (fromkeys_insert acc x) = insert (set x) (set ` set acc)"
    by (auto simp: fromkeys_insert_def list_ex_iff frozenset_eq_def)
  with Cons.IH [of "fromkeys_insert acc x"] show ?case by auto
qed

lemma fromkeys_fold_distinct:
  "distinct (map set acc) \<Longrightarrow> distinct (map set (foldl fromkeys_insert acc xs))"
proof (induction xs arbitrary: acc)
  case Nil
  then show ?case by simp
next
  case (Cons x xs)
  from Cons.prems have "distinct (map set (fromkeys_insert acc x))"
    by (auto simp: fromkeys_insert_def list_ex_iff frozenset_eq_def)
  from Cons.IH [OF this] show ?case by simp
qed

lemma fromkeys_fold_subset:
  "set (foldl fromkeys_insert acc xs) \<subseteq> set acc \<union> set xs"
proof (induction xs arbitrary: acc)
  case Nil
  show ?case by simp
next
  case (Cons x xs)
  have "set (fromkeys_insert acc x) \<subseteq> insert x (set acc)"
    by (auto simp: fromkeys_insert_def)
  with Cons.IH [of "fromkeys_insert acc x"] show ?case by auto
qed

lemma dict_fromkeys_sets: "set ` set (dict_fromkeys xs) = set ` set xs"
  by (simp add: dict_fromkeys_def fromkeys_fold_sets)

lemma dict_fromkeys_distinct: "distinct (map set (dict_fromkeys xs))"
  by (simp add: dict_fromkeys_def fromkeys_fold_distinct)

lemma dict_fromkeys_subset: "set (dict_fromkeys xs) \<subseteq> set xs"
  using fromkeys_fold_subset [of "[]" xs] by (simp add: dict_fromkeys_def)

lemma mset_binarysort: "mset (binarysort lt pre xs) = mset pre + mset xs"
proof (induction xs arbitrary: pre)
  case Nil
  show ?case by simp
next
  case (Cons x xs)
  define l where "l = bisect lt x pre 0 (length pre)"
  have "mset (take l pre) + mset (drop l pre) = mset pre"
    by (metis append_take_drop_id mset_append)
  then have "mset (take l pre @ x # drop l pre) = mset pre + {#x#}"
    by simp
  with Cons.IH [of "take l pre @ x # drop l pre"] show ?case
    by (simp add: l_def Let_def)
qed

lemma mset_py_sorted: "mset (py_sorted lt xs) = mset xs"
proof -
  obtain n descending where cr: "count_run lt xs = (n, descending)"
    by (cases "count_run lt xs")
  have "mset (take n xs) + mset (drop n xs) = mset xs"
    by (metis append_take_drop_id mset_append)
  then show ?thesis
    by (simp add: py_sorted_def cr mset_binarysort)
qed

lemma set_py_sorted: "set (py_sorted lt xs) = set xs"
  by (metis mset_py_sorted set_mset_mset)

lemma distinct_map_py_sorted: "distinct (map f (py_sorted lt xs)) = distinct (map f xs)"
proof -
  have "mset (map f (py_sorted lt xs)) = mset (map f xs)"
    by (simp add: mset_py_sorted)
  then show ?thesis by (rule mset_eq_imp_distinct_iff)
qed

lemma length_py_sorted: "length (py_sorted lt xs) = length xs"
  by (metis mset_py_sorted size_mset)

section \<open>The distinct override dictionaries and the groups added for them\<close>

lemma special_hps_distinct:
  assumes "special_hps model = Inr hps"
  shows "distinct (map set hps)"
  using assms
  by (auto simp: special_hps_def Let_def distinct_map_py_sorted dict_fromkeys_distinct
      split: if_splits)

lemma special_hps_sets:
  assumes "special_hps model = Inr hps"
  shows "set ` set hps = {set d | d p. p \<in> set model \<and> optim_attr p = Some d}"
proof -
  let ?raw = "map (the \<circ> optim_attr) (filter (\<lambda>p. optim_attr p \<noteq> None) model)"
  from assms have "hps = py_sorted frozenset_lt (dict_fromkeys ?raw)"
    by (auto simp: special_hps_def Let_def split: if_splits)
  then have "set ` set hps = set ` set ?raw"
    by (simp add: set_py_sorted dict_fromkeys_sets)
  also have "set ?raw = {d. \<exists>p \<in> set model. optim_attr p = Some d}"
    by (auto simp: image_iff) force
  finally show ?thesis by auto
qed

lemma special_hps_subset:
  assumes "special_hps model = Inr hps" and "hp \<in> set hps"
  shows "\<exists>p \<in> set model. optim_attr p = Some hp"
proof -
  let ?raw = "map (the \<circ> optim_attr) (filter (\<lambda>p. optim_attr p \<noteq> None) model)"
  from assms have "hps = py_sorted frozenset_lt (dict_fromkeys ?raw)"
    by (auto simp: special_hps_def Let_def split: if_splits)
  with assms(2) have "hp \<in> set ?raw"
    using dict_fromkeys_subset [of ?raw] by (auto simp: set_py_sorted)
  then show ?thesis by auto
qed

lemma special_hps_length:
  assumes "special_hps model = Inr hps"
  shows "length hps = card {set d | d p. p \<in> set model \<and> optim_attr p = Some d}"
proof -
  have "length hps = length (map set hps)" by simp
  also have "\<dots> = card (set (map set hps))"
    using special_hps_distinct [OF assms] by (simp only: distinct_card)
  also have "set (map set hps) = set ` set hps" by simp
  finally show ?thesis by (simp only: special_hps_sets [OF assms])
qed

lemma map_of_setdefault_fold:
  "map_of (foldl setdefault d dflts) k =
     (case map_of d k of Some v \<Rightarrow> Some v | None \<Rightarrow> map_of dflts k)"
proof (induction dflts arbitrary: d)
  case Nil
  show ?case by (simp split: option.split)
next
  case (Cons kv dflts)
  have step: "map_of (setdefault d kv) k =
      (case map_of d k of Some v \<Rightarrow> Some v | None \<Rightarrow> if k = fst kv then Some (snd kv) else None)"
  proof (cases "fst kv \<in> fst ` set d")
    case True
    then have "map_of d (fst kv) \<noteq> None" by (simp add: map_of_eq_None_iff)
    with True show ?thesis by (auto simp: setdefault_def split: option.split)
  next
    case False
    then have "map_of d (fst kv) = None" by (simp add: map_of_eq_None_iff)
    with False show ?thesis
      by (cases kv) (auto simp: setdefault_def map_add_def split: option.split)
  qed
  have "map_of (foldl setdefault d (kv # dflts)) k =
      (case map_of (setdefault d kv) k of Some v \<Rightarrow> Some v | None \<Rightarrow> map_of dflts k)"
    by (simp add: Cons.IH)
  also have "\<dots> = (case map_of d k of Some v \<Rightarrow> Some v | None \<Rightarrow> map_of (kv # dflts) k)"
    unfolding step by (cases kv) (simp split: option.split)
  finally show ?case .
qed

lemma add_param_group_Inr:
  assumes "add_param_group known opt pg = Inr opt'"
  shows "opt' = append_group opt (stored_group (defaults opt) (accepted_params known pg) pg) \<and>
         \<not> overlaps (accepted_params known pg) (param_groups opt)"
  using assms
  by (auto simp: add_param_group_def accepted_params_def
      split: option.splits sum.splits if_splits)

lemma not_overlaps_disjoint:
  assumes "\<not> overlaps ps gs" and "i < length gs"
  shows "pid ` set ps \<inter> pid ` set (params (gs ! i)) = {}"
proof -
  from assms(2) have "gs ! i \<in> set gs"
    by (rule nth_mem)
  then have "set (params (gs ! i)) \<subseteq> set (concat (map params gs))"
    by auto
  then have "pid ` set (params (gs ! i)) \<subseteq> pid ` set (concat (map params gs))"
    by (rule image_mono)
  moreover from assms(1) have "\<forall>p \<in> set ps. pid p \<notin> pid ` set (concat (map params gs))"
    by (simp add: overlaps_def list_ex_iff)
  ultimately show ?thesis by blast
qed

lemma disjoint_groups_append:
  assumes "disjoint_groups gs" and "\<not> overlaps (params g) gs"
  shows "disjoint_groups (gs @ [g])"
  unfolding disjoint_groups_def
proof (intro allI impI)
  fix i j
  assume i: "i < length (gs @ [g])" and j: "j < length (gs @ [g])" and ne: "i \<noteq> j"
  show "pid ` set (params ((gs @ [g]) ! i)) \<inter> pid ` set (params ((gs @ [g]) ! j)) = {}"
  proof (cases "i < length gs")
    case True
    show ?thesis
    proof (cases "j < length gs")
      case j': True
      with True ne assms(1) show ?thesis
        by (simp add: disjoint_groups_def nth_append)
    next
      case False
      with j have "j = length gs" by simp
      with True not_overlaps_disjoint [OF assms(2) True] show ?thesis
        by (auto simp: nth_append)
    qed
  next
    case False
    with i have i': "i = length gs" by simp
    with ne j have j': "j < length gs" by simp
    from not_overlaps_disjoint [OF assms(2) j'] i' j' show ?thesis
      by (auto simp: nth_append)
  qed
qed

lemma disjoint_groupsD:
  assumes "disjoint_groups gs" and "i < length gs" and "j < length gs"
    and "p \<in> set (params (gs ! i))" and "p \<in> set (params (gs ! j))"
  shows "i = j"
proof (rule ccontr)
  assume "i \<noteq> j"
  with assms(1-3) have "pid ` set (params (gs ! i)) \<inter> pid ` set (params (gs ! j)) = {}"
    by (simp add: disjoint_groups_def)
  with assms(4,5) show False by blast
qed

lemma add_special_groups_Inr:
  assumes "add_special_groups model opt hps = Inr opt'"
  shows "otype opt' = otype opt \<and> defaults opt' = defaults opt \<and>
         param_groups opt' = param_groups opt @ map (special_group (defaults opt) model) hps \<and>
         (disjoint_groups (param_groups opt) \<longrightarrow> disjoint_groups (param_groups opt'))"
  using assms
proof (induction hps arbitrary: opt)
  case Nil
  then show ?case by simp
next
  case (Cons hp hps)
  let ?pg = "group_display (filter (has_hp hp) model) hp"
  from Cons.prems obtain opt1 where
    a: "add_param_group model opt ?pg = Inr opt1" and
    r: "add_special_groups model opt1 hps = Inr opt'"
    by (auto split: sum.splits)
  from add_param_group_Inr [OF a]
  have o1: "opt1 = append_group opt (special_group (defaults opt) model hp)"
    and no: "\<not> overlaps (params (special_group (defaults opt) model hp)) (param_groups opt)"
    by (simp_all add: special_group_def Let_def stored_group_def)
  have d1: "disjoint_groups (param_groups opt) \<longrightarrow> disjoint_groups (param_groups opt1)"
    using disjoint_groups_append [OF _ no] by (simp add: o1 append_group_def)
  from Cons.IH [OF r]
  have t: "otype opt' = otype opt1" and f: "defaults opt' = defaults opt1"
    and g: "param_groups opt' =
      param_groups opt1 @ map (special_group (defaults opt1) model) hps"
    and d2: "disjoint_groups (param_groups opt1) \<longrightarrow> disjoint_groups (param_groups opt')"
    by blast+
  have "otype opt' = otype opt" and "defaults opt' = defaults opt"
    and "param_groups opt' =
      param_groups opt @ map (special_group (defaults opt) model) (hp # hps)"
    using t f g by (simp_all add: o1 append_group_def)
  moreover from d1 d2
  have "disjoint_groups (param_groups opt) \<longrightarrow> disjoint_groups (param_groups opt')"
    by blast
  ultimately show ?case by blast
qed

lemma group_display_fold_distinct:
  "distinct (map fst d) \<Longrightarrow>
   distinct (map fst (foldl (\<lambda>d kv. AList.update (fst kv) (HVal (snd kv)) d) d hp))"
  by (induction hp arbitrary: d) (simp_all add: distinct_update)

lemma group_display_distinct: "distinct (map fst (group_display ps hp))"
  unfolding group_display_def by (rule group_display_fold_distinct) simp

lemma group_display_fold_map_of:
  "map_of (foldl (\<lambda>d kv. AList.update (fst kv) (HVal (snd kv)) d) d hp) k =
     (case map_of (rev hp) k of Some v \<Rightarrow> Some (HVal v) | None \<Rightarrow> map_of d k)"
proof (induction hp arbitrary: d)
  case Nil
  show ?case by simp
next
  case (Cons x hp)
  show ?case
    by (cases x) (auto simp: Cons.IH update_conv' map_add_def split: option.split)
qed

lemma map_of_group_display:
  "map_of (group_display ps hp) k =
     (case map_of (rev hp) k of
        Some v \<Rightarrow> Some (HVal v)
      | None \<Rightarrow> if k = ''params'' then Some (ParamList ps) else None)"
  by (simp add: group_display_def group_display_fold_map_of split: option.split)

lemma rev_keys_None: "map_of (rev hp) k = None \<longleftrightarrow> k \<notin> fst ` set hp"
  by (simp add: map_of_eq_None_iff)

lemma accepted_params_no_key:
  assumes "''params'' \<notin> fst ` set hp"
  shows "accepted_params known (group_display ps hp) = ps"
proof -
  from assms have "map_of (rev hp) ''params'' = None"
    by (simp add: rev_keys_None)
  then show ?thesis
    by (simp add: accepted_params_def map_of_group_display group_params_def)
qed

lemma special_group_params:
  assumes "''params'' \<notin> fst ` set hp"
  shows "params (special_group dflts model hp) = filter (has_hp hp) model"
  by (simp add: special_group_def Let_def stored_group_def accepted_params_no_key [OF assms])

lemma hyper_entries_keys: "fst ` set (hyper_entries pg) \<subseteq> fst ` set pg"
  by (induction pg rule: hyper_entries.induct) auto

lemma map_of_hyper_entries:
  "distinct (map fst pg) \<Longrightarrow>
   map_of (hyper_entries pg) k =
     (if k = ''params'' then None
      else case map_of pg k of Some (HVal v) \<Rightarrow> Some (Val v) | _ \<Rightarrow> None)"
proof (induction pg rule: hyper_entries.induct)
  case 1
  show ?case by simp
next
  case (2 k' ps pg)
  then have "k' \<notin> fst ` set (hyper_entries pg)"
    using hyper_entries_keys [of pg] by auto
  then have "map_of (hyper_entries pg) k' = None"
    by (simp add: map_of_eq_None_iff)
  moreover from 2 have "map_of pg k' = None"
    by (simp add: map_of_eq_None_iff)
  ultimately show ?case using 2 by auto
next
  case (3 k' v pg)
  then have "k' \<notin> fst ` set (hyper_entries pg)"
    using hyper_entries_keys [of pg] by auto
  then have "map_of (hyper_entries pg) k' = None"
    by (simp add: map_of_eq_None_iff)
  moreover from 3 have "map_of pg k' = None"
    by (simp add: map_of_eq_None_iff)
  ultimately show ?case using 3 by auto
qed

lemma special_group_hypers:
  "map_of (hypers (special_group dflts model hp)) k =
     (if k = ''params'' then map_of dflts k
      else case map_of (rev hp) k of Some v \<Rightarrow> Some (Val v) | None \<Rightarrow> map_of dflts k)"
  by (simp add: special_group_def Let_def stored_group_def map_of_setdefault_fold
      map_of_hyper_entries [OF group_display_distinct] map_of_group_display
      split: option.split)

lemma map_of_same_items:
  assumes "distinct (map fst d)" and "set xs = set d"
  shows "map_of xs k = map_of d k"
proof (cases "map_of xs k")
  case None
  then have "k \<notin> fst ` set xs" by (simp add: map_of_eq_None_iff)
  with assms(2) have "k \<notin> fst ` set d" by simp
  then have "map_of d k = None" by (simp add: map_of_eq_None_iff)
  with None show ?thesis by simp
next
  case (Some v)
  then have "(k, v) \<in> set d" using assms(2) by (auto dest: map_of_SomeD)
  with assms(1) Some show ?thesis by simp
qed

lemma optimizer_init_Inr:
  assumes "optimizer_init known t ps kwargs = Inr opt"
  shows "ps \<noteq> [] \<and> ''params'' \<notin> fst ` set kwargs \<and>
         opt = \<lparr>otype = t, defaults = kwargs,
                 param_groups = [stored_group kwargs ps [(''params'', ParamList ps)]]\<rparr>"
  using assms
  by (auto simp: optimizer_init_def add_param_group_def append_group_def group_params_def
      split: if_splits)

lemma disjoint_groups_single: "disjoint_groups [g]"
  by (simp add: disjoint_groups_def)

lemma build_optim_Inr:
  assumes "build_optim optim easyoptim h optim_cfg model = (Inr opt, h')"
  shows "\<exists>cfg ty a d hps.
           heap_get h optim_cfg = Some cfg \<and> map_of cfg ''TYPE'' = Some ty \<and>
           resolve_type optim easyoptim ty = Inr (otype opt) \<and>
           map_of cfg ''PARAM'' = Some (DictRef a) \<and> heap_get h a = Some d \<and>
           h' = h @ [d] \<and> defaults opt = d \<and> ''params'' \<notin> fst ` set d \<and>
           filter (\<lambda>p. optim_attr p = None) model \<noteq> [] \<and>
           special_hps model = Inr hps \<and> disjoint_groups (param_groups opt) \<and>
           param_groups opt =
             stored_group d (filter (\<lambda>p. optim_attr p = None) model)
               [(''params'', ParamList (filter (\<lambda>p. optim_attr p = None) model))]
             # map (special_group d model) hps"
proof -
  let ?ps = "filter (\<lambda>p. optim_attr p = None) model"
  from assms obtain cfg where cfg: "heap_get h optim_cfg = Some cfg"
    by (auto simp: build_optim_def split: option.splits)
  from assms cfg obtain ty where ty: "map_of cfg ''TYPE'' = Some ty"
    by (auto simp: build_optim_def split: option.splits)
  from assms cfg ty obtain t where t: "resolve_type optim easyoptim ty = Inr t"
    by (auto simp: build_optim_def split: sum.splits)
  from assms cfg ty t obtain a where a: "map_of cfg ''PARAM'' = Some (DictRef a)"
    by (auto simp: build_optim_def split: option.splits cval.splits)
  from assms cfg ty t a obtain d where d: "heap_get h a = Some d"
    by (auto simp: build_optim_def split: option.splits)
  note unf = build_optim_def cfg ty t a d dict_copy_def Let_def
  from assms obtain opt0 where o0: "optimizer_init model t ?ps d = Inr opt0"
    by (auto simp: unf split: sum.splits)
  from assms o0 obtain hps where hps: "special_hps model = Inr hps"
    by (auto simp: unf split: sum.splits)
  from assms o0 hps have fin: "add_special_groups model opt0 hps = Inr opt" and h': "h' = h @ [d]"
    by (auto simp: unf)
  note i = optimizer_init_Inr [OF o0]
  from i have "disjoint_groups (param_groups opt0)"
    by (simp add: disjoint_groups_single)
  with add_special_groups_Inr [OF fin] i
  have "otype opt = t" "defaults opt = d" "disjoint_groups (param_groups opt)"
    "param_groups opt = stored_group d ?ps [(''params'', ParamList ?ps)] # map (special_group d model) hps"
    by auto
  with cfg ty t a d h' hps i show ?thesis by auto
qed

lemma build_optim_groups:
  assumes "build_optim optim easyoptim h optim_cfg model = (Inr opt, h')"
  shows "\<exists>hps. special_hps model = Inr hps \<and>
           length (param_groups opt) = Suc (length hps) \<and>
           params (param_groups opt ! 0) = filter (\<lambda>p. optim_attr p = None) model \<and>
           (\<forall>j < length hps.
              param_groups opt ! Suc j = special_group (defaults opt) model (hps ! j)) \<and>
           disjoint_groups (param_groups opt)"
proof -
  from build_optim_Inr [OF assms] obtain d hps where
    hps: "special_hps model = Inr hps" and d: "defaults opt = d" and
    dis: "disjoint_groups (param_groups opt)" and
    g: "param_groups opt =
          stored_group d (filter (\<lambda>p. optim_attr p = None) model)
            [(''params'', ParamList (filter (\<lambda>p. optim_attr p = None) model))]
          # map (special_group d model) hps"
    by blast
  have "length (param_groups opt) = Suc (length hps)" by (simp add: g)
  moreover have "params (param_groups opt ! 0) = filter (\<lambda>p. optim_attr p = None) model"
    by (simp add: g stored_group_def)
  moreover have "\<forall>j < length hps.
      param_groups opt ! Suc j = special_group (defaults opt) model (hps ! j)"
    by (simp add: g d)
  ultimately show ?thesis using hps dis by blast
qed

lemma in_special_group:
  assumes "''params'' \<notin> fst ` set hp"
  shows "q \<in> set (params (special_group dflts model hp)) \<longleftrightarrow>
     q \<in> set model \<and> (\<exists>d. optim_attr q = Some d \<and> set d = set hp)"
  by (auto simp: special_group_params [OF assms] has_hp_def dict_eq_def split: option.splits)

lemma special_hps_index:
  assumes "special_hps model = Inr hps" and "p \<in> set model" and "optim_attr p = Some d"
  obtains j where "j < length hps" and "set (hps ! j) = set d"
proof -
  from assms(2,3) have "set d \<in> {set d | d p. p \<in> set model \<and> optim_attr p = Some d}"
    by blast
  then have "set d \<in> set ` set hps"
    by (simp only: special_hps_sets [OF assms(1)])
  then obtain hp where "hp \<in> set hps" and "set hp = set d" by auto
  then show ?thesis
    using that by (auto simp: in_set_conv_nth)
qed

lemma special_hps_index_unique:
  assumes "special_hps model = Inr hps" and "i < length hps" and "j < length hps"
    and "set (hps ! i) = set (hps ! j)"
  shows "i = j"
proof -
  have "distinct (map set hps)" by (rule special_hps_distinct [OF assms(1)])
  moreover have "map set hps ! i = map set hps ! j" using assms by simp
  ultimately show ?thesis
    using assms(2,3) by (simp add: nth_eq_iff_index_eq del: nth_map)
qed

lemma group_member:
  assumes "special_hps model = Inr hps"
    and "length (param_groups opt) = Suc (length hps)"
    and "params (param_groups opt ! 0) = filter (\<lambda>p. optim_attr p = None) model"
    and "\<forall>j < length hps.
           param_groups opt ! Suc j = special_group (defaults opt) model (hps ! j)"
    and "i < length (param_groups opt)"
    and "i = 0 \<or> ''params'' \<notin> fst ` set (hps ! (i - 1))"
  shows "p \<in> set (params (param_groups opt ! i)) \<longleftrightarrow>
         p \<in> set model \<and>
         (if i = 0 then optim_attr p = None
          else \<exists>d. optim_attr p = Some d \<and> set d = set (hps ! (i - 1)))"
proof (cases i)
  case 0
  then show ?thesis using assms(3) by auto
next
  case (Suc j)
  with assms(2,5) have "j < length hps" by simp
  with assms(4) have "param_groups opt ! Suc j = special_group (defaults opt) model (hps ! j)"
    by simp
  moreover from assms(6) Suc have "''params'' \<notin> fst ` set (hps ! j)" by simp
  ultimately show ?thesis by (simp add: Suc in_special_group)
qed

section \<open>Looking up the class and building the scheduler\<close>

lemma type_rewrite_id:
  assumes "heap_get h a = Some cfg" and "map_of cfg ''TYPE'' = Some ty"
  shows "h[a := AList.update ''TYPE'' ty cfg] = h"
proof -
  from assms(1) have "a < length h" and "h ! a = cfg"
    by (auto simp: heap_get_def split: if_splits)
  moreover have "AList.update ''TYPE'' ty cfg = cfg"
    using assms(2) by (rule update_triv)
  ultimately show ?thesis by (simp add: list_update_same_conv)
qed

lemma build_lr_scheduler_unfold:
  assumes "heap_get h a = Some cfg" and "map_of cfg ''TYPE'' = Some ty"
  shows "build_lr_scheduler lr_scheduler easy_lr_scheduler h a optimizer =
     (case resolve_type lr_scheduler easy_lr_scheduler ty of
        Inl e \<Rightarrow> (Inl e, h)
      | Inr t \<Rightarrow>
          (case map_of cfg ''PARAM'' of
             None \<Rightarrow> (Inl KeyError, h)
           | Some (DictRef b) \<Rightarrow>
               (case heap_get h b of
                  None \<Rightarrow> (Inl TypeError, h)
                | Some d \<Rightarrow>
                    (Inr \<lparr>stype = t, skwargs = AList.update ''optimizer'' (Obj optimizer) d\<rparr>,
                     h @ [AList.update ''optimizer'' (Obj optimizer) d]))
           | Some other \<Rightarrow> (Inl (not_a_dict other), h)))"
proof -
  from assms(1) have "h ! a = cfg"
    by (auto simp: heap_get_def split: if_splits)
  then show ?thesis
    by (simp add: build_lr_scheduler_def assms type_rewrite_id [OF assms] Let_def
        dict_copy_def split: sum.split option.split cval.split)
qed

lemma resolve_type_cases:
  assumes "resolve_type builtin custom ty = Inr t"
  shows "(\<forall>t'. ty = TypeObj t' \<longrightarrow> t = t') \<and>
         (\<forall>name t'. ty = Val (Str name) \<and> builtin name = Some t' \<longrightarrow> t = t') \<and>
         (\<forall>name. ty = Val (Str name) \<and> builtin name = None \<longrightarrow> custom name = Some t) \<and>
         ((\<exists>t'. ty = TypeObj t') \<or> (\<exists>name. ty = Val (Str name)))"
  using assms
  by (auto simp: resolve_type_def split: cval.splits hval.splits option.splits)

section \<open>The heap after a call\<close>

lemma build_optim_heap_cases:
  "snd (build_optim optim easyoptim h optim_cfg model) = h \<or>
   (\<exists>d. snd (build_optim optim easyoptim h optim_cfg model) = h @ [d])"
proof (cases "heap_get h optim_cfg")
  case None
  then show ?thesis by (simp add: build_optim_def)
next
  case cfg: (Some cfg)
  show ?thesis
  proof (cases "map_of cfg ''TYPE''")
    case None
    with cfg show ?thesis by (simp add: build_optim_def)
  next
    case ty: (Some ty)
    show ?thesis
    proof (cases "resolve_type optim easyoptim ty")
      case (Inl e)
      with cfg ty show ?thesis by (simp add: build_optim_def)
    next
      case t: (Inr t)
      show ?thesis
      proof (cases "map_of cfg ''PARAM''")
        case None
        with cfg ty t show ?thesis by (simp add: build_optim_def)
      next
        case pv: (Some pv)
        show ?thesis
        proof (cases "\<exists>a d. pv = DictRef a \<and> heap_get h a = Some d")
          case False
          with cfg ty t pv show ?thesis
            by (cases pv; cases "heap_get h (case pv of DictRef a \<Rightarrow> a | _ \<Rightarrow> 0)")
              (simp_all add: build_optim_def)
        next
          case True
          then obtain a d where "pv = DictRef a" and d: "heap_get h a = Some d" by blast
          with cfg ty t pv have
            "snd (build_optim optim easyoptim h optim_cfg model) = h @ [d]"
            by (simp add: build_optim_def dict_copy_def Let_def split: sum.split)
          then show ?thesis by blast
        qed
      qed
    qed
  qed
qed

lemma build_optim_heap:
  "take (length h) (snd (build_optim optim easyoptim h optim_cfg model)) = h"
  using build_optim_heap_cases [of optim easyoptim h optim_cfg model] by auto

lemma build_lr_scheduler_heap:
  "take (length h)
     (snd (build_lr_scheduler lr_scheduler easy_lr_scheduler h lr_scheduler_cfg optimizer)) = h"
proof (cases "heap_get h lr_scheduler_cfg")
  case None
  then show ?thesis by (simp add: build_lr_scheduler_def)
next
  case cfg: (Some cfg)
  show ?thesis
  proof (cases "map_of cfg ''TYPE''")
    case None
    with cfg show ?thesis by (simp add: build_lr_scheduler_def)
  next
    case (Some ty)
    show ?thesis
      by (simp add: build_lr_scheduler_unfold [OF cfg Some]
          split: option.split sum.split cval.split)
  qed
qed

section \<open>When the builders return\<close>

text \<open>
  \<^verbatim>\<open>build_optim\<close> returns an optimizer when \<^verbatim>\<open>TYPE\<close> resolves, \<^verbatim>\<open>PARAM\<close> is a dictionary
  without the key \<^verbatim>\<open>params\<close>, the parameters of the model are different objects, some
  parameter has no override, and every override dictionary has hashable values and no key
  \<^verbatim>\<open>params\<close>; \<^verbatim>\<open>build_lr_scheduler\<close> returns a scheduler when \<^verbatim>\<open>TYPE\<close> resolves and \<^verbatim>\<open>PARAM\<close> is
  a dictionary.
\<close>

lemma overlaps_append:
  "overlaps ps (gs @ [g]) \<longleftrightarrow>
     overlaps ps gs \<or> pid ` set ps \<inter> pid ` set (params g) \<noteq> {}"
  by (auto simp: overlaps_def list_ex_iff)

lemma has_hp_filters_disjoint:
  assumes "inj_on pid (set model)" and "set hp \<noteq> set hp'"
  shows "pid ` set (filter (has_hp hp) model) \<inter> pid ` set (filter (has_hp hp') model) = {}"
proof -
  have "set (filter (has_hp hp) model) \<inter> set (filter (has_hp hp') model) = {}"
    using assms(2) by (auto simp: has_hp_def dict_eq_def split: option.splits)
  moreover have "set (filter (has_hp hp) model) \<subseteq> set model"
    and "set (filter (has_hp hp') model) \<subseteq> set model"
    by auto
  ultimately show ?thesis
    using assms(1) by (metis image_is_empty inj_on_image_Int)
qed

lemma add_special_groups_returns:
  assumes "\<forall>hp \<in> set hps. ''params'' \<notin> fst ` set hp"
    and "inj_on pid (set model)"
    and "distinct (map set hps)"
    and "\<forall>hp \<in> set hps. \<not> overlaps (filter (has_hp hp) model) (param_groups opt)"
  shows "\<exists>opt'. add_special_groups model opt hps = Inr opt'"
  using assms
proof (induction hps arbitrary: opt)
  case Nil
  show ?case by simp
next
  case (Cons hp hps)
  let ?ps = "filter (has_hp hp) model"
  from Cons.prems(1) have key: "''params'' \<notin> fst ` set hp"
    by simp
  then have acc: "accepted_params model (group_display ?ps hp) = ?ps"
    by (rule accepted_params_no_key)
  from key have "map_of (rev hp) ''params'' = None"
    by (simp add: rev_keys_None)
  then have m: "map_of (group_display ?ps hp) ''params'' = Some (ParamList ?ps)"
    by (simp add: map_of_group_display)
  from Cons.prems(4) have no: "\<not> overlaps ?ps (param_groups opt)"
    by simp
  define opt1 where
    "opt1 = append_group opt (stored_group (defaults opt) ?ps (group_display ?ps hp))"
  from m no have a: "add_param_group model opt (group_display ?ps hp) = Inr opt1"
    by (simp add: add_param_group_def group_params_def opt1_def)
  have g1: "param_groups opt1 =
      param_groups opt @ [stored_group (defaults opt) ?ps (group_display ?ps hp)]"
    by (simp add: opt1_def append_group_def)
  have "\<forall>hp' \<in> set hps. \<not> overlaps (filter (has_hp hp') model) (param_groups opt1)"
  proof
    fix hp'
    assume in': "hp' \<in> set hps"
    with Cons.prems(3) have "set hp' \<noteq> set hp"
      by auto
    from has_hp_filters_disjoint [OF Cons.prems(2) this]
    have "pid ` set (filter (has_hp hp') model) \<inter> pid ` set ?ps = {}" .
    moreover from Cons.prems(4) in'
    have "\<not> overlaps (filter (has_hp hp') model) (param_groups opt)"
      by simp
    ultimately show "\<not> overlaps (filter (has_hp hp') model) (param_groups opt1)"
      by (simp add: g1 overlaps_append stored_group_def)
  qed
  with Cons.IH [of opt1] Cons.prems(1-3) obtain opt' where
    "add_special_groups model opt1 hps = Inr opt'"
    by auto
  with a show ?case by simp
qed

lemma special_hps_returns:
  assumes "\<forall>p \<in> set model. \<forall>hp. optim_attr p = Some hp \<longrightarrow> list_all (\<lambda>kv. hashable (snd kv)) hp"
  shows "\<exists>hps. special_hps model = Inr hps"
proof -
  have "list_all (list_all (\<lambda>kv. hashable (snd kv)))
      (map (the \<circ> optim_attr) (filter (\<lambda>p. optim_attr p \<noteq> None) model))"
    using assms by (fastforce simp: list_all_iff)
  then show ?thesis by (simp add: special_hps_def Let_def)
qed

lemma build_optim_returns:
  assumes "heap_get h optim_cfg = Some cfg"
    and "map_of cfg ''TYPE'' = Some ty"
    and "resolve_type optim easyoptim ty = Inr t"
    and "map_of cfg ''PARAM'' = Some (DictRef a)"
    and "heap_get h a = Some d"
    and "''params'' \<notin> fst ` set d"
    and "\<exists>p \<in> set model. optim_attr p = None"
    and "\<forall>p \<in> set model. \<forall>hp. optim_attr p = Some hp \<longrightarrow>
           ''params'' \<notin> fst ` set hp \<and> list_all (\<lambda>kv. hashable (snd kv)) hp"
    and "inj_on pid (set model)"
  shows "\<exists>opt. build_optim optim easyoptim h optim_cfg model = (Inr opt, h @ [d])"
proof -
  let ?ps = "filter (\<lambda>p. optim_attr p = None) model"
  let ?g0 = "stored_group d ?ps [(''params'', ParamList ?ps)]"
  let ?opt0 = "\<lparr>otype = t, defaults = d, param_groups = [?g0]\<rparr>"
  from assms(7) have ne: "?ps \<noteq> []"
    by (auto simp: filter_empty_conv)
  with assms(6) have o0: "optimizer_init model t ?ps d = Inr ?opt0"
    by (simp add: optimizer_init_def add_param_group_def group_params_def overlaps_def
        append_group_def list_ex_iff)
  from assms(8) obtain hps where hps: "special_hps model = Inr hps"
    using special_hps_returns [of model] by blast
  have keys: "\<forall>hp \<in> set hps. ''params'' \<notin> fst ` set hp"
    using special_hps_subset [OF hps] assms(8) by blast
  have "\<forall>hp \<in> set hps. \<not> overlaps (filter (has_hp hp) model) (param_groups ?opt0)"
  proof
    fix hp
    have "set (filter (has_hp hp) model) \<inter> set ?ps = {}"
      by (auto simp: has_hp_def)
    moreover have "set (filter (has_hp hp) model) \<subseteq> set model" and "set ?ps \<subseteq> set model"
      by auto
    ultimately have "pid ` set (filter (has_hp hp) model) \<inter> pid ` set ?ps = {}"
      using assms(9) by (metis image_is_empty inj_on_image_Int)
    then show "\<not> overlaps (filter (has_hp hp) model) (param_groups ?opt0)"
      by (auto simp: overlaps_def list_ex_iff stored_group_def)
  qed
  from add_special_groups_returns [OF keys assms(9) special_hps_distinct [OF hps] this]
  obtain opt where "add_special_groups model ?opt0 hps = Inr opt"
    by blast
  with o0 hps have "build_optim optim easyoptim h optim_cfg model = (Inr opt, h @ [d])"
    by (simp add: build_optim_def assms(1-5) dict_copy_def Let_def)
  then show ?thesis by blast
qed

lemma build_lr_scheduler_returns:
  assumes "heap_get h lr_scheduler_cfg = Some cfg"
    and "map_of cfg ''TYPE'' = Some ty"
    and "resolve_type lr_scheduler easy_lr_scheduler ty = Inr t"
    and "map_of cfg ''PARAM'' = Some (DictRef a)"
    and "heap_get h a = Some d"
  shows "build_lr_scheduler lr_scheduler easy_lr_scheduler h lr_scheduler_cfg optimizer =
           (Inr \<lparr>stype = t, skwargs = AList.update ''optimizer'' (Obj optimizer) d\<rparr>,
            h @ [AList.update ''optimizer'' (Obj optimizer) d])"
  by (simp add: build_lr_scheduler_unfold [OF assms(1,2)] assms(3-5))

section \<open>The claims\<close>

text \<open>
  Claim C1: for two orderings of the parameters that carry the same override
  dictionaries, the sequence of distinct override sets computed before the groups are
  created is the same. The code sorts frozensets with \<^verbatim>\<open>sorted\<close>, and \<^verbatim>\<open><\<close> on frozensets is
  proper inclusion: two sets of which neither includes the other are left in the order
  in which the parameters were met. With the overrides \<^verbatim>\<open>{'lr': 0.1}\<close> and \<^verbatim>\<open>{'lr': 0.2}\<close>
  the sequence, and with it the order of the groups, follows the enumeration order.
\<close>

theorem override_order_follows_enumeration:
  "mset [w_plain, w_lr1, w_lr2] = mset [w_plain, w_lr2, w_lr1] \<and>
   special_hps [w_plain, w_lr1, w_lr2] =
     Inr [[(''lr'', Num (1 / 10))], [(''lr'', Num (2 / 10))]] \<and>
   special_hps [w_plain, w_lr2, w_lr1] =
     Inr [[(''lr'', Num (2 / 10))], [(''lr'', Num (1 / 10))]] \<and>
   map params (param_groups (projr (fst
       (build_optim ex_builtin ex_custom ex_heap 0 [w_plain, w_lr1, w_lr2])))) =
     [[w_plain], [w_lr1], [w_lr2]] \<and>
   map params (param_groups (projr (fst
       (build_optim ex_builtin ex_custom ex_heap 0 [w_plain, w_lr2, w_lr1])))) =
     [[w_plain], [w_lr2], [w_lr1]]"
proof -
  have "mset [w_plain, w_lr1, w_lr2] = mset [w_plain, w_lr2, w_lr1]"
    by simp
  moreover have "special_hps [w_plain, w_lr1, w_lr2] =
      Inr [[(''lr'', Num (1 / 10))], [(''lr'', Num (2 / 10))]]"
    by code_simp
  moreover have "special_hps [w_plain, w_lr2, w_lr1] =
      Inr [[(''lr'', Num (2 / 10))], [(''lr'', Num (1 / 10))]]"
    by code_simp
  moreover have "map params (param_groups (projr (fst
      (build_optim ex_builtin ex_custom ex_heap 0 [w_plain, w_lr1, w_lr2])))) =
      [[w_plain], [w_lr1], [w_lr2]]"
    by code_simp
  moreover have "map params (param_groups (projr (fst
      (build_optim ex_builtin ex_custom ex_heap 0 [w_plain, w_lr2, w_lr1])))) =
      [[w_plain], [w_lr2], [w_lr1]]"
    by code_simp
  ultimately show ?thesis by blast
qed

text \<open>
  Claim C2, amended: when the builder returns, the optimizer has one group more than
  there are distinct override sets; and for every override dictionary \<open>d\<close> of a parameter
  that does not use the key \<^verbatim>\<open>params\<close>, exactly one of the added groups holds exactly the
  parameters whose override dictionary equals \<open>d\<close>, and in that group every key of \<open>d\<close>
  has the value \<open>d\<close> gives it and every other key has the optimizer's default.
\<close>

theorem override_group_added:
  assumes "build_optim optim easyoptim h optim_cfg model = (Inr opt, h')"
    and "p \<in> set model" and "optim_attr p = Some d"
    and "distinct (map fst d)" and "''params'' \<notin> fst ` set d"
  shows "length (param_groups opt) =
           Suc (card {set d' | d' q. q \<in> set model \<and> optim_attr q = Some d'}) \<and>
         (\<exists>i. 0 < i \<and> i < length (param_groups opt) \<and>
              params (param_groups opt ! i) = filter (has_hp d) model \<and>
              (\<forall>k. map_of (hypers (param_groups opt ! i)) k =
                     (case map_of d k of
                        Some v \<Rightarrow> Some (Val v)
                      | None \<Rightarrow> map_of (defaults opt) k)) \<and>
              (\<forall>j. 0 < j \<and> j < length (param_groups opt) \<and>
                    params (param_groups opt ! j) = filter (has_hp d) model \<longrightarrow> j = i))"
proof -
  from build_optim_groups [OF assms(1)] obtain hps where
    hps: "special_hps model = Inr hps" and
    len: "length (param_groups opt) = Suc (length hps)" and
    gs: "\<And>j. j < length hps \<Longrightarrow>
           param_groups opt ! Suc j = special_group (defaults opt) model (hps ! j)" and
    dis: "disjoint_groups (param_groups opt)"
    by blast
  from hps assms(2,3) obtain i where i: "i < length hps" and si: "set (hps ! i) = set d"
    by (rule special_hps_index)
  have keys: "''params'' \<notin> fst ` set (hps ! i)" using assms(5) si by simp
  have same: "has_hp (hps ! i) = has_hp d"
    by (rule ext) (simp add: has_hp_def dict_eq_def si split: option.split)
  have pin: "p \<in> set (filter (has_hp d) model)"
    using assms(2,3) by (simp add: has_hp_def dict_eq_def)
  have ps: "params (param_groups opt ! Suc i) = filter (has_hp d) model"
    by (simp add: gs [OF i] special_group_params [OF keys] same)
  have hy: "map_of (hypers (param_groups opt ! Suc i)) k =
      (case map_of d k of Some v \<Rightarrow> Some (Val v) | None \<Rightarrow> map_of (defaults opt) k)" for k
  proof -
    have m: "map_of (rev (hps ! i)) k = map_of d k"
      by (rule map_of_same_items [OF assms(4)]) (simp add: si)
    have "map_of d ''params'' = None"
      using assms(5) by (simp add: map_of_eq_None_iff)
    with m show ?thesis
      by (auto simp: gs [OF i] special_group_hypers)
  qed
  have uniq: "j = Suc i"
    if "0 < j" "j < length (param_groups opt)"
      "params (param_groups opt ! j) = filter (has_hp d) model" for j
  proof -
    from pin that(3) have "p \<in> set (params (param_groups opt ! j))"
      by simp
    moreover from pin ps have "p \<in> set (params (param_groups opt ! Suc i))"
      by simp
    moreover from i len have "Suc i < length (param_groups opt)"
      by simp
    ultimately show ?thesis
      using disjoint_groupsD [OF dis that(2)] by blast
  qed
  have "length (param_groups opt) =
      Suc (card {set d' | d' q. q \<in> set model \<and> optim_attr q = Some d'})"
    by (simp only: len special_hps_length [OF hps])
  moreover have "\<exists>i. 0 < i \<and> i < length (param_groups opt) \<and>
      params (param_groups opt ! i) = filter (has_hp d) model \<and>
      (\<forall>k. map_of (hypers (param_groups opt ! i)) k =
             (case map_of d k of Some v \<Rightarrow> Some (Val v) | None \<Rightarrow> map_of (defaults opt) k)) \<and>
      (\<forall>j. 0 < j \<and> j < length (param_groups opt) \<and>
            params (param_groups opt ! j) = filter (has_hp d) model \<longrightarrow> j = i)"
    using i len ps hy uniq by (intro exI [of _ "Suc i"]) auto
  ultimately show ?thesis by (rule conjI)
qed

text \<open>
  As the claim is worded, for every override set: it fails for \<^verbatim>\<open>{'params': ()}\<close>. The
  display \<^verbatim>\<open>{"params": params, **hp}\<close> lets the override replace the parameter list, the
  empty tuple is accepted as an empty list of tensors, and the group that is added holds
  no parameter.
\<close>

theorem override_group_params_key_counterexample:
  "\<not> isl (fst ex_run_params) \<and>
   optim_attr w_params = Some [(''params'', Tuple [])] \<and>
   filter (has_hp [(''params'', Tuple [])]) [w_plain, w_params] = [w_params] \<and>
   map params (param_groups (projr (fst ex_run_params))) = [[w_plain], []] \<and>
   [w_params] \<notin> set (map params (param_groups (projr (fst ex_run_params))))"
  by code_simp

theorem override_group_added_witness:
  "build_optim ex_builtin ex_custom ex_heap 0 ex_model = (Inr ex_opt, snd ex_run) \<and>
   w_lr1 \<in> set ex_model \<and> optim_attr w_lr1 = Some [(''lr'', Num (1 / 10))] \<and>
   distinct (map fst [(''lr'', Num (1 / 10))]) \<and>
   ''params'' \<notin> fst ` set [(''lr'', Num (1 / 10))] \<and>
   length (param_groups ex_opt) =
            Suc (card {set d' | d' q. q \<in> set ex_model \<and> optim_attr q = Some d'}) \<and>
          (\<exists>i. 0 < i \<and> i < length (param_groups ex_opt) \<and>
               params (param_groups ex_opt ! i) = filter (has_hp [(''lr'', Num (1 / 10))]) ex_model \<and>
               (\<forall>k. map_of (hypers (param_groups ex_opt ! i)) k =
                      (case map_of [(''lr'', Num (1 / 10))] k of
                         Some v \<Rightarrow> Some (Val v)
                       | None \<Rightarrow> map_of (defaults ex_opt) k)) \<and>
               (\<forall>j. 0 < j \<and> j < length (param_groups ex_opt) \<and>
                     params (param_groups ex_opt ! j) = filter (has_hp [(''lr'', Num (1 / 10))]) ex_model \<longrightarrow> j = i))"
proof -
  have run: "build_optim ex_builtin ex_custom ex_heap 0 ex_model = (Inr ex_opt, snd ex_run)"
    by code_simp
  have p: "w_lr1 \<in> set ex_model"
    by (simp add: ex_model_def)
  have a: "optim_attr w_lr1 = Some [(''lr'', Num (1 / 10))]"
    by (simp add: w_lr1_def)
  have k: "distinct (map fst [(''lr'', Num (1 / 10))])"
    by simp
  have n: "''params'' \<notin> fst ` set [(''lr'', Num (1 / 10))]"
    by simp
  note c = override_group_added [OF run p a k n]
  show ?thesis
    by (rule conjI [OF run conjI [OF p conjI [OF a conjI [OF k conjI [OF n c]]]]])
qed

text \<open>
  Claim C3: when the builder returns, group 0 exists and holds the parameters without the
  override attribute, in the model's order: every such parameter is in it, and it has as
  many parameters as the model has parameters without the attribute.
\<close>

theorem default_params_in_group0:
  assumes "build_optim optim easyoptim h optim_cfg model = (Inr opt, h')"
  shows "param_groups opt \<noteq> [] \<and>
         params (param_groups opt ! 0) = filter (\<lambda>p. optim_attr p = None) model \<and>
         (\<forall>p \<in> set model. optim_attr p = None \<longrightarrow> p \<in> set (params (param_groups opt ! 0))) \<and>
         length (params (param_groups opt ! 0)) =
           length (filter (\<lambda>p. optim_attr p = None) model)"
proof -
  from build_optim_groups [OF assms] obtain hps where
    "special_hps model = Inr hps"
    "length (param_groups opt) = Suc (length hps)"
    "params (param_groups opt ! 0) = filter (\<lambda>p. optim_attr p = None) model"
    by blast
  then show ?thesis by auto
qed

theorem default_params_in_group0_witness:
  "build_optim ex_builtin ex_custom ex_heap 0 ex_model = (Inr ex_opt, snd ex_run) \<and>
   w_plain \<in> set ex_model \<and> optim_attr w_plain = None \<and>
   param_groups ex_opt \<noteq> [] \<and>
   params (param_groups ex_opt ! 0) = filter (\<lambda>p. optim_attr p = None) ex_model \<and>
   w_plain \<in> set (params (param_groups ex_opt ! 0)) \<and>
   length (params (param_groups ex_opt ! 0)) =
     length (filter (\<lambda>p. optim_attr p = None) ex_model)"
proof -
  have run: "build_optim ex_builtin ex_custom ex_heap 0 ex_model = (Inr ex_opt, snd ex_run)"
    by code_simp
  have p: "w_plain \<in> set ex_model"
    by (simp add: ex_model_def)
  have a: "optim_attr w_plain = None"
    by (simp add: w_plain_def)
  note c = default_params_in_group0 [OF run]
  from c p a have m: "w_plain \<in> set (params (param_groups ex_opt ! 0))"
    by blast
  from c have c1: "param_groups ex_opt \<noteq> []"
    and c2: "params (param_groups ex_opt ! 0) = filter (\<lambda>p. optim_attr p = None) ex_model"
    and c3: "length (params (param_groups ex_opt ! 0)) =
      length (filter (\<lambda>p. optim_attr p = None) ex_model)"
    by blast+
  show ?thesis
    by (rule conjI [OF run conjI [OF p conjI [OF a conjI [OF c1 conjI [OF c2 conjI [OF m c3]]]]]])
qed

text \<open>
  Claim C4, amended: when the builder returns, two parameters whose override
  dictionaries have the same (key, value) pairs, in whatever order the keys were inserted,
  are in one and the same added group, provided the dictionary does not use the key
  \<^verbatim>\<open>params\<close>; two parameters whose override dictionaries differ in a key or a value are
  in no common group, provided one of the two dictionaries does not use the key
  \<^verbatim>\<open>params\<close>; and when neither uses it, each of the two is in an added group of its own.
\<close>

theorem equal_overrides_share_group:
  assumes "build_optim optim easyoptim h optim_cfg model = (Inr opt, h')"
    and "p \<in> set model" and "q \<in> set model"
    and "optim_attr p = Some dp" and "optim_attr q = Some dq"
  shows "(set dp = set dq \<and> ''params'' \<notin> fst ` set dp \<longrightarrow>
            (\<exists>i. 0 < i \<and> i < length (param_groups opt) \<and>
                 p \<in> set (params (param_groups opt ! i)) \<and>
                 q \<in> set (params (param_groups opt ! i)))) \<and>
         (set dp \<noteq> set dq \<and> (''params'' \<notin> fst ` set dp \<or> ''params'' \<notin> fst ` set dq) \<longrightarrow>
            (\<forall>i < length (param_groups opt).
               \<not> (p \<in> set (params (param_groups opt ! i)) \<and>
                  q \<in> set (params (param_groups opt ! i))))) \<and>
         (set dp \<noteq> set dq \<and> ''params'' \<notin> fst ` set dp \<and> ''params'' \<notin> fst ` set dq \<longrightarrow>
            (\<exists>i j. 0 < i \<and> i < length (param_groups opt) \<and>
                   0 < j \<and> j < length (param_groups opt) \<and> i \<noteq> j \<and>
                   p \<in> set (params (param_groups opt ! i)) \<and>
                   q \<in> set (params (param_groups opt ! j))))"
proof -
  from build_optim_groups [OF assms(1)] obtain hps where
    hps: "special_hps model = Inr hps" and
    len: "length (param_groups opt) = Suc (length hps)" and
    g0: "params (param_groups opt ! 0) = filter (\<lambda>p. optim_attr p = None) model" and
    gs: "\<forall>j < length hps.
           param_groups opt ! Suc j = special_group (defaults opt) model (hps ! j)" and
    dis: "disjoint_groups (param_groups opt)"
    by blast
  note mem = group_member [OF hps len g0 gs]
  have own: "\<exists>i. 0 < i \<and> i < length (param_groups opt) \<and>
      r \<in> set (params (param_groups opt ! i)) \<and>
      (\<forall>x. x \<in> set (params (param_groups opt ! i)) \<longrightarrow>
         (\<exists>d'. optim_attr x = Some d' \<and> set d' = set d))"
    if r: "r \<in> set model" and d: "optim_attr r = Some d"
      and key: "''params'' \<notin> fst ` set d" for r d
  proof -
    from hps r d obtain j where j: "j < length hps" and sj: "set (hps ! j) = set d"
      by (rule special_hps_index)
    from j len have i: "Suc j < length (param_groups opt)" by simp
    from key sj have k: "Suc j = 0 \<or> ''params'' \<notin> fst ` set (hps ! (Suc j - 1))" by simp
    have "r \<in> set (params (param_groups opt ! Suc j))"
      using r d sj by (simp add: mem [OF i k])
    moreover have "\<forall>x. x \<in> set (params (param_groups opt ! Suc j)) \<longrightarrow>
        (\<exists>d'. optim_attr x = Some d' \<and> set d' = set d)"
      using sj by (simp add: mem [OF i k])
    ultimately show ?thesis using i by blast
  qed
  have same: "\<exists>i. 0 < i \<and> i < length (param_groups opt) \<and>
      p \<in> set (params (param_groups opt ! i)) \<and> q \<in> set (params (param_groups opt ! i))"
    if eq: "set dp = set dq" and key: "''params'' \<notin> fst ` set dp"
  proof -
    from hps assms(2,4) obtain j where j: "j < length hps" and sj: "set (hps ! j) = set dp"
      by (rule special_hps_index)
    from j len have i: "Suc j < length (param_groups opt)" by simp
    from key sj have k: "Suc j = 0 \<or> ''params'' \<notin> fst ` set (hps ! (Suc j - 1))" by simp
    have "p \<in> set (params (param_groups opt ! Suc j))"
      using assms(2,4) sj by (simp add: mem [OF i k])
    moreover have "q \<in> set (params (param_groups opt ! Suc j))"
      using assms(3,5) sj eq by (simp add: mem [OF i k])
    ultimately show ?thesis using i by blast
  qed
  have differ_one: "\<not> (r \<in> set (params (param_groups opt ! i)) \<and>
      s \<in> set (params (param_groups opt ! i)))"
    if r: "r \<in> set model" and dr: "optim_attr r = Some d"
      and ds: "optim_attr s = Some e" and ne: "set d \<noteq> set e"
      and key: "''params'' \<notin> fst ` set d"
      and i: "i < length (param_groups opt)" for r s d e i
  proof
    assume both: "r \<in> set (params (param_groups opt ! i)) \<and>
      s \<in> set (params (param_groups opt ! i))"
    from own [OF r dr key] obtain k where k: "k < length (param_groups opt)"
      and rk: "r \<in> set (params (param_groups opt ! k))"
      and all: "\<forall>x. x \<in> set (params (param_groups opt ! k)) \<longrightarrow>
        (\<exists>d'. optim_attr x = Some d' \<and> set d' = set d)"
      by blast
    from disjoint_groupsD [OF dis i k] both rk have "i = k" by blast
    with both all ds ne show False by auto
  qed
  have differ: "\<not> (p \<in> set (params (param_groups opt ! i)) \<and>
      q \<in> set (params (param_groups opt ! i)))"
    if ne: "set dp \<noteq> set dq"
      and key: "''params'' \<notin> fst ` set dp \<or> ''params'' \<notin> fst ` set dq"
      and i: "i < length (param_groups opt)" for i
  proof (cases "''params'' \<notin> fst ` set dp")
    case True
    from differ_one [OF assms(2,4,5) ne True i] show ?thesis .
  next
    case False
    with key have kq: "''params'' \<notin> fst ` set dq" by blast
    from ne have "set dq \<noteq> set dp" by blast
    from differ_one [OF assms(3,5,4) this kq i] show ?thesis by blast
  qed
  have apart: "\<exists>i j. 0 < i \<and> i < length (param_groups opt) \<and>
      0 < j \<and> j < length (param_groups opt) \<and> i \<noteq> j \<and>
      p \<in> set (params (param_groups opt ! i)) \<and> q \<in> set (params (param_groups opt ! j))"
    if ne: "set dp \<noteq> set dq" and kp: "''params'' \<notin> fst ` set dp"
      and kq: "''params'' \<notin> fst ` set dq"
  proof -
    from own [OF assms(2,4) kp] obtain i where
      i: "0 < i" "i < length (param_groups opt)"
      and pi: "p \<in> set (params (param_groups opt ! i))"
      by blast
    from own [OF assms(3,5) kq] obtain j where
      j: "0 < j" "j < length (param_groups opt)"
      and qj: "q \<in> set (params (param_groups opt ! j))"
      by blast
    from kp have "''params'' \<notin> fst ` set dp \<or> ''params'' \<notin> fst ` set dq" by blast
    from differ [OF ne this i(2)] pi qj have "i \<noteq> j" by blast
    with i j pi qj show ?thesis by blast
  qed
  from same differ apart show ?thesis by blast
qed

text \<open>
  Without the proviso the first half fails: two parameters that both carry
  \<^verbatim>\<open>{'params': ()}\<close> have equal override dictionaries and are in no group at all.
\<close>

theorem equal_overrides_params_key_counterexample:
  "\<not> isl (fst ex_run_params2) \<and>
   optim_attr w_params = optim_attr w_params' \<and>
   map params (param_groups (projr (fst ex_run_params2))) = [[w_plain], []] \<and>
   w_params \<notin> set (concat (map params (param_groups (projr (fst ex_run_params2))))) \<and>
   w_params' \<notin> set (concat (map params (param_groups (projr (fst ex_run_params2)))))"
  by code_simp

text \<open>
  The second half needs its proviso too: a parameter \<open>p\<close> with
  \<^verbatim>\<open>p._optim = {'params': (p, q)}\<close> and a parameter \<open>q\<close> with \<^verbatim>\<open>q._optim = {'params': ()}\<close> have
  different override dictionaries, and the group added for the first holds both.
\<close>

theorem differing_overrides_params_key_example:
  "\<not> isl (fst ex_run_pair) \<and>
   set (the (optim_attr w_pair)) \<noteq> set (the (optim_attr w_none)) \<and>
   map params (param_groups (projr (fst ex_run_pair))) = [[w_plain], [w_pair, w_none], []]"
  by code_simp

theorem equal_overrides_share_group_witness:
  "build_optim ex_builtin ex_custom ex_heap 0 ex_model = (Inr ex_opt, snd ex_run) \<and>
   w_ab \<in> set ex_model \<and> w_ba \<in> set ex_model \<and> w_lr2 \<in> set ex_model \<and>
   set [(''lr'', Num (1 / 10)), (''weight_decay'', Num 0)] =
     set [(''weight_decay'', Num 0), (''lr'', Num (1 / 10))] \<and>
   ''params'' \<notin> fst ` set [(''lr'', Num (1 / 10)), (''weight_decay'', Num 0)] \<and>
   (\<exists>i. 0 < i \<and> i < length (param_groups ex_opt) \<and>
        w_ab \<in> set (params (param_groups ex_opt ! i)) \<and>
        w_ba \<in> set (params (param_groups ex_opt ! i))) \<and>
   set [(''lr'', Num (1 / 10)), (''weight_decay'', Num 0)] \<noteq> set [(''lr'', Num (2 / 10))] \<and>
   \<not> (\<exists>i < length (param_groups ex_opt).
         w_ab \<in> set (params (param_groups ex_opt ! i)) \<and>
         w_lr2 \<in> set (params (param_groups ex_opt ! i))) \<and>
   ''params'' \<notin> fst ` set [(''lr'', Num (2 / 10))] \<and>
   (\<exists>i j. 0 < i \<and> i < length (param_groups ex_opt) \<and>
          0 < j \<and> j < length (param_groups ex_opt) \<and> i \<noteq> j \<and>
          w_ab \<in> set (params (param_groups ex_opt ! i)) \<and>
          w_lr2 \<in> set (params (param_groups ex_opt ! j)))"
proof -
  have run: "build_optim ex_builtin ex_custom ex_heap 0 ex_model = (Inr ex_opt, snd ex_run)"
    by code_simp
  have p: "w_ab \<in> set ex_model" and q: "w_ba \<in> set ex_model" and r: "w_lr2 \<in> set ex_model"
    by (simp_all add: ex_model_def)
  have ap: "optim_attr w_ab = Some [(''lr'', Num (1 / 10)), (''weight_decay'', Num 0)]"
    by (simp add: w_ab_def)
  have aq: "optim_attr w_ba = Some [(''weight_decay'', Num 0), (''lr'', Num (1 / 10))]"
    by (simp add: w_ba_def)
  have ar: "optim_attr w_lr2 = Some [(''lr'', Num (2 / 10))]"
    by (simp add: w_lr2_def)
  have eq: "set [(''lr'', Num (1 / 10)), (''weight_decay'', Num 0)] =
      set [(''weight_decay'', Num 0), (''lr'', Num (1 / 10))]"
    by auto
  have key: "''params'' \<notin> fst ` set [(''lr'', Num (1 / 10)), (''weight_decay'', Num 0)]"
    by simp
  have ne: "set [(''lr'', Num (1 / 10)), (''weight_decay'', Num 0)] \<noteq> set [(''lr'', Num (2 / 10))]"
    by auto
  have key2: "''params'' \<notin> fst ` set [(''lr'', Num (2 / 10))]"
    by simp
  from equal_overrides_share_group [OF run p q ap aq] eq key
  have same: "\<exists>i. 0 < i \<and> i < length (param_groups ex_opt) \<and>
      w_ab \<in> set (params (param_groups ex_opt ! i)) \<and>
      w_ba \<in> set (params (param_groups ex_opt ! i))"
    by blast
  note c = equal_overrides_share_group [OF run p r ap ar]
  from conjunct1 [OF conjunct2 [OF c]] ne key
  have differ: "\<not> (\<exists>i < length (param_groups ex_opt).
      w_ab \<in> set (params (param_groups ex_opt ! i)) \<and>
      w_lr2 \<in> set (params (param_groups ex_opt ! i)))"
    by blast
  from conjunct2 [OF conjunct2 [OF c]] ne key key2
  have apart: "\<exists>i j. 0 < i \<and> i < length (param_groups ex_opt) \<and>
      0 < j \<and> j < length (param_groups ex_opt) \<and> i \<noteq> j \<and>
      w_ab \<in> set (params (param_groups ex_opt ! i)) \<and>
      w_lr2 \<in> set (params (param_groups ex_opt ! j))"
    by blast
  from run p q r eq key same ne differ key2 apart show ?thesis
    by (intro conjI) assumption+
qed

text \<open>
  Claim C5: when \<^verbatim>\<open>build_optim\<close> returns an optimizer, its class is the one \<^verbatim>\<open>TYPE\<close> resolves
  to: \<^verbatim>\<open>TYPE\<close> itself when it is a class; for a name, what the framework's module has
  under that name, and what the package's own module has only when the framework's
  module does not have the name. The optimizer is built with the entries of \<^verbatim>\<open>PARAM\<close> as
  its keyword arguments.
\<close>

theorem optimizer_type_resolution:
  assumes "build_optim optim easyoptim h optim_cfg model = (Inr opt, h')"
    and "heap_get h optim_cfg = Some cfg"
    and "map_of cfg ''TYPE'' = Some ty"
    and "map_of cfg ''PARAM'' = Some (DictRef a)"
    and "heap_get h a = Some d"
  shows "(\<forall>t. ty = TypeObj t \<longrightarrow> otype opt = t) \<and>
         (\<forall>name t. ty = Val (Str name) \<and> optim name = Some t \<longrightarrow> otype opt = t) \<and>
         (\<forall>name. ty = Val (Str name) \<and> optim name = None \<longrightarrow>
                easyoptim name = Some (otype opt)) \<and>
         ((\<exists>t. ty = TypeObj t) \<or> (\<exists>name. ty = Val (Str name))) \<and>
         defaults opt = d"
proof -
  from build_optim_Inr [OF assms(1)] assms(2-5)
  have "resolve_type optim easyoptim ty = Inr (otype opt)" and "defaults opt = d"
    by auto
  with resolve_type_cases [of optim easyoptim ty "otype opt"] show ?thesis by blast
qed

theorem optimizer_type_resolution_witness:
  "build_optim ex_builtin ex_custom ex_heap 0 ex_model = (Inr ex_opt, snd ex_run) \<and>
   ex_builtin ''SGD'' = Some (PyType ''builtin.SGD'') \<and>
   ex_custom ''SGD'' = Some (PyType ''custom.SGD'') \<and>
   otype ex_opt = PyType ''builtin.SGD'' \<and>
   defaults ex_opt = [(''lr'', Val (Num (1 / 100)))] \<and>
   build_optim ex_builtin ex_custom ex_heap_custom 0 ex_model
     = (Inr (projr (fst ex_run_custom)), snd ex_run_custom) \<and>
   ex_builtin ''Mine'' = None \<and>
   ex_custom ''Mine'' = Some (otype (projr (fst ex_run_custom))) \<and>
   build_optim ex_builtin ex_custom ex_heap_class 0 ex_model
     = (Inr (projr (fst ex_run_class)), snd ex_run_class) \<and>
   otype (projr (fst ex_run_class)) = PyType ''user.Own''"
proof -
  have run1: "build_optim ex_builtin ex_custom ex_heap 0 ex_model = (Inr ex_opt, snd ex_run)"
    by code_simp
  have cfg1: "heap_get ex_heap 0 = Some [(''TYPE'', Val (Str ''SGD'')), (''PARAM'', DictRef 1)]"
    by (simp add: heap_get_def ex_heap_def)
  have ty1: "map_of [(''TYPE'', Val (Str ''SGD'')), (''PARAM'', DictRef 1 :: nat cval)] ''TYPE''
      = Some (Val (Str ''SGD''))"
    by simp
  have pa1: "map_of [(''TYPE'', Val (Str ''SGD'')), (''PARAM'', DictRef 1 :: nat cval)] ''PARAM''
      = Some (DictRef 1)"
    by simp
  have d1: "heap_get ex_heap 1 = Some [(''lr'', Val (Num (1 / 100)))]"
    by (simp add: heap_get_def ex_heap_def)
  have b1: "ex_builtin ''SGD'' = Some (PyType ''builtin.SGD'')"
    by (simp add: ex_builtin_def)
  have c1: "ex_custom ''SGD'' = Some (PyType ''custom.SGD'')"
    by (simp add: ex_custom_def)
  note r1 = optimizer_type_resolution [OF run1 cfg1 ty1 pa1 d1]
  from r1 b1 have t1: "otype ex_opt = PyType ''builtin.SGD''"
    by blast
  from r1 have k1: "defaults ex_opt = [(''lr'', Val (Num (1 / 100)))]"
    by blast
  have run2: "build_optim ex_builtin ex_custom ex_heap_custom 0 ex_model
      = (Inr (projr (fst ex_run_custom)), snd ex_run_custom)"
    by code_simp
  have cfg2: "heap_get ex_heap_custom 0
      = Some [(''TYPE'', Val (Str ''Mine'')), (''PARAM'', DictRef 1)]"
    by (simp add: heap_get_def ex_heap_custom_def)
  have ty2: "map_of [(''TYPE'', Val (Str ''Mine'')), (''PARAM'', DictRef 1 :: nat cval)] ''TYPE''
      = Some (Val (Str ''Mine''))"
    by simp
  have pa2: "map_of [(''TYPE'', Val (Str ''Mine'')), (''PARAM'', DictRef 1 :: nat cval)] ''PARAM''
      = Some (DictRef 1)"
    by simp
  have d2: "heap_get ex_heap_custom 1 = Some [(''lr'', Val (Num (1 / 100)))]"
    by (simp add: heap_get_def ex_heap_custom_def)
  have b2: "ex_builtin ''Mine'' = None"
    by (simp add: ex_builtin_def)
  note r2 = optimizer_type_resolution [OF run2 cfg2 ty2 pa2 d2]
  from r2 b2 have t2: "ex_custom ''Mine'' = Some (otype (projr (fst ex_run_custom)))"
    by blast
  have run3: "build_optim ex_builtin ex_custom ex_heap_class 0 ex_model
      = (Inr (projr (fst ex_run_class)), snd ex_run_class)"
    by code_simp
  have cfg3: "heap_get ex_heap_class 0
      = Some [(''TYPE'', TypeObj (PyType ''user.Own'')), (''PARAM'', DictRef 1)]"
    by (simp add: heap_get_def ex_heap_class_def)
  have ty3: "map_of [(''TYPE'', TypeObj (PyType ''user.Own'')), (''PARAM'', DictRef 1 :: nat cval)]
      ''TYPE'' = Some (TypeObj (PyType ''user.Own''))"
    by simp
  have pa3: "map_of [(''TYPE'', TypeObj (PyType ''user.Own'')), (''PARAM'', DictRef 1 :: nat cval)]
      ''PARAM'' = Some (DictRef 1)"
    by simp
  have d3: "heap_get ex_heap_class 1 = Some [(''lr'', Val (Num (1 / 100)))]"
    by (simp add: heap_get_def ex_heap_class_def)
  note r3 = optimizer_type_resolution [OF run3 cfg3 ty3 pa3 d3]
  from r3 have t3: "otype (projr (fst ex_run_class)) = PyType ''user.Own''"
    by blast
  show ?thesis
    by (rule conjI [OF run1 conjI [OF b1 conjI [OF c1 conjI [OF t1 conjI [OF k1
          conjI [OF run2 conjI [OF b2 conjI [OF t2 conjI [OF run3 t3]]]]]]]]])
qed

text \<open>
  Claim C6: when \<^verbatim>\<open>build_lr_scheduler\<close> returns a scheduler, its class is the one \<^verbatim>\<open>TYPE\<close>
  resolves to, the framework's scheduler module being asked first and the package's own
  only for a name the framework's module does not have; and the keyword arguments the
  scheduler is built with hold the optimizer under \<^verbatim>\<open>optimizer\<close> and, under every other key,
  what \<^verbatim>\<open>PARAM\<close> holds.
\<close>

theorem scheduler_type_resolution:
  assumes "build_lr_scheduler lr_scheduler easy_lr_scheduler h lr_scheduler_cfg optimizer
             = (Inr sched, h')"
    and "heap_get h lr_scheduler_cfg = Some cfg"
    and "map_of cfg ''TYPE'' = Some ty"
    and "map_of cfg ''PARAM'' = Some (DictRef a)"
    and "heap_get h a = Some d"
  shows "(\<forall>t. ty = TypeObj t \<longrightarrow> stype sched = t) \<and>
         (\<forall>name t. ty = Val (Str name) \<and> lr_scheduler name = Some t \<longrightarrow> stype sched = t) \<and>
         (\<forall>name. ty = Val (Str name) \<and> lr_scheduler name = None \<longrightarrow>
                easy_lr_scheduler name = Some (stype sched)) \<and>
         ((\<exists>t. ty = TypeObj t) \<or> (\<exists>name. ty = Val (Str name))) \<and>
         map_of (skwargs sched) ''optimizer'' = Some (Obj optimizer) \<and>
         (\<forall>k. k \<noteq> ''optimizer'' \<longrightarrow> map_of (skwargs sched) k = map_of d k)"
proof -
  from assms(1) have r: "resolve_type lr_scheduler easy_lr_scheduler ty = Inr (stype sched)"
    and k: "skwargs sched = AList.update ''optimizer'' (Obj optimizer) d"
    by (auto simp: build_lr_scheduler_unfold [OF assms(2,3)] assms(4,5) split: sum.splits)
  have "map_of (skwargs sched) ''optimizer'' = Some (Obj optimizer)"
    by (simp add: k update_conv')
  moreover have "\<forall>k. k \<noteq> ''optimizer'' \<longrightarrow> map_of (skwargs sched) k = map_of d k"
    by (simp add: k update_conv')
  ultimately show ?thesis
    using resolve_type_cases [OF r] by blast
qed

theorem scheduler_type_resolution_witness:
  "build_lr_scheduler ex_builtin ex_custom ex_sched_heap 0 7
     = (Inr (projr (fst ex_sched)), snd ex_sched) \<and>
   ex_builtin ''StepLR'' = Some (PyType ''builtin.StepLR'') \<and>
   stype (projr (fst ex_sched)) = PyType ''builtin.StepLR'' \<and>
   map_of (skwargs (projr (fst ex_sched))) ''optimizer'' = Some (Obj 7) \<and>
   map_of (skwargs (projr (fst ex_sched))) ''step_size'' = Some (Val (Num 30)) \<and>
   build_lr_scheduler ex_builtin ex_custom ex_sched_heap_custom 0 7
     = (Inr (projr (fst ex_sched_custom)), snd ex_sched_custom) \<and>
   ex_builtin ''Mine'' = None \<and>
   ex_custom ''Mine'' = Some (stype (projr (fst ex_sched_custom))) \<and>
   build_lr_scheduler ex_builtin ex_custom ex_sched_heap_class 0 7
     = (Inr (projr (fst ex_sched_class)), snd ex_sched_class) \<and>
   stype (projr (fst ex_sched_class)) = PyType ''user.Own''"
proof -
  have run1: "build_lr_scheduler ex_builtin ex_custom ex_sched_heap 0 7
      = (Inr (projr (fst ex_sched)), snd ex_sched)"
    by code_simp
  have cfg1: "heap_get ex_sched_heap 0
      = Some [(''TYPE'', Val (Str ''StepLR'')), (''PARAM'', DictRef 1)]"
    by (simp add: heap_get_def ex_sched_heap_def)
  have ty1: "map_of [(''TYPE'', Val (Str ''StepLR'')), (''PARAM'', DictRef 1 :: nat cval)] ''TYPE''
      = Some (Val (Str ''StepLR''))"
    by simp
  have pa1: "map_of [(''TYPE'', Val (Str ''StepLR'')), (''PARAM'', DictRef 1 :: nat cval)] ''PARAM''
      = Some (DictRef 1)"
    by simp
  have d1: "heap_get ex_sched_heap 1 = Some [(''step_size'', Val (Num 30))]"
    by (simp add: heap_get_def ex_sched_heap_def)
  have b1: "ex_builtin ''StepLR'' = Some (PyType ''builtin.StepLR'')"
    by (simp add: ex_builtin_def)
  note r1 = scheduler_type_resolution [OF run1 cfg1 ty1 pa1 d1]
  from r1 b1 have t1: "stype (projr (fst ex_sched)) = PyType ''builtin.StepLR''"
    by blast
  from r1 have o1: "map_of (skwargs (projr (fst ex_sched))) ''optimizer'' = Some (Obj 7)"
    by blast
  from r1 have "map_of (skwargs (projr (fst ex_sched))) ''step_size''
      = map_of [(''step_size'', Val (Num 30))] ''step_size''"
    by simp
  then have s1: "map_of (skwargs (projr (fst ex_sched))) ''step_size'' = Some (Val (Num 30))"
    by simp
  have run2: "build_lr_scheduler ex_builtin ex_custom ex_sched_heap_custom 0 7
      = (Inr (projr (fst ex_sched_custom)), snd ex_sched_custom)"
    by code_simp
  have cfg2: "heap_get ex_sched_heap_custom 0
      = Some [(''TYPE'', Val (Str ''Mine'')), (''PARAM'', DictRef 1)]"
    by (simp add: heap_get_def ex_sched_heap_custom_def)
  have ty2: "map_of [(''TYPE'', Val (Str ''Mine'')), (''PARAM'', DictRef 1 :: nat cval)] ''TYPE''
      = Some (Val (Str ''Mine''))"
    by simp
  have pa2: "map_of [(''TYPE'', Val (Str ''Mine'')), (''PARAM'', DictRef 1 :: nat cval)] ''PARAM''
      = Some (DictRef 1)"
    by simp
  have d2: "heap_get ex_sched_heap_custom 1 = Some [(''step_size'', Val (Num 30))]"
    by (simp add: heap_get_def ex_sched_heap_custom_def)
  have b2: "ex_builtin ''Mine'' = None"
    by (simp add: ex_builtin_def)
  note r2 = scheduler_type_resolution [OF run2 cfg2 ty2 pa2 d2]
  from r2 b2 have t2: "ex_custom ''Mine'' = Some (stype (projr (fst ex_sched_custom)))"
    by blast
  have run3: "build_lr_scheduler ex_builtin ex_custom ex_sched_heap_class 0 7
      = (Inr (projr (fst ex_sched_class)), snd ex_sched_class)"
    by code_simp
  have cfg3: "heap_get ex_sched_heap_class 0
      = Some [(''TYPE'', TypeObj (PyType ''user.Own'')), (''PARAM'', DictRef 1)]"
    by (simp add: heap_get_def ex_sched_heap_class_def)
  have ty3: "map_of [(''TYPE'', TypeObj (PyType ''user.Own'')), (''PARAM'', DictRef 1 :: nat cval)]
      ''TYPE'' = Some (TypeObj (PyType ''user.Own''))"
    by simp
  have pa3: "map_of [(''TYPE'', TypeObj (PyType ''user.Own'')), (''PARAM'', DictRef 1 :: nat cval)]
      ''PARAM'' = Some (DictRef 1)"
    by simp
  have d3: "heap_get ex_sched_heap_class 1 = Some [(''step_size'', Val (Num 30))]"
    by (simp add: heap_get_def ex_sched_heap_class_def)
  note r3 = scheduler_type_resolution [OF run3 cfg3 ty3 pa3 d3]
  from r3 have t3: "stype (projr (fst ex_sched_class)) = PyType ''user.Own''"
    by blast
  show ?thesis
    by (rule conjI [OF run1 conjI [OF b1 conjI [OF t1 conjI [OF o1 conjI [OF s1
          conjI [OF run2 conjI [OF b2 conjI [OF t2 conjI [OF run3 t3]]]]]]]]])
qed

text \<open>
  Claim C7: when \<^verbatim>\<open>TYPE\<close> is a name that neither the framework's module nor the package's
  own module has, each of the two builders raises \<^verbatim>\<open>AttributeError\<close>, whatever the rest of
  its input is; nothing else is tried, and the heap is as it was.
\<close>

theorem unknown_type_raises:
  assumes "heap_get h optim_cfg = Some cfg"
    and "map_of cfg ''TYPE'' = Some (Val (Str name))"
    and "optim name = None" and "easyoptim name = None"
    and "heap_get hs lr_scheduler_cfg = Some scfg"
    and "map_of scfg ''TYPE'' = Some (Val (Str sname))"
    and "lr_scheduler sname = None" and "easy_lr_scheduler sname = None"
  shows "build_optim optim easyoptim h optim_cfg model = (Inl AttributeError, h) \<and>
         build_lr_scheduler lr_scheduler easy_lr_scheduler hs lr_scheduler_cfg optimizer
           = (Inl AttributeError, hs)"
proof -
  have "build_optim optim easyoptim h optim_cfg model = (Inl AttributeError, h)"
    by (simp add: build_optim_def assms(1-4) resolve_type_def)
  moreover have "build_lr_scheduler lr_scheduler easy_lr_scheduler hs lr_scheduler_cfg optimizer
      = (Inl AttributeError, hs)"
    by (simp add: build_lr_scheduler_unfold [OF assms(5,6)] assms(7,8) resolve_type_def)
  ultimately show ?thesis by (rule conjI)
qed

theorem unknown_type_raises_witness:
  "heap_get ex_heap_unknown 0 = Some [(''TYPE'', Val (Str ''Nowhere'')), (''PARAM'', DictRef 1)] \<and>
   ex_builtin ''Nowhere'' = None \<and> ex_custom ''Nowhere'' = None \<and>
   build_optim ex_builtin ex_custom ex_heap_unknown 0 ex_model
     = (Inl AttributeError, ex_heap_unknown) \<and>
   build_lr_scheduler ex_builtin ex_custom ex_heap_unknown 0 7
     = (Inl AttributeError, ex_heap_unknown)"
proof -
  have cfg: "heap_get ex_heap_unknown 0
      = Some [(''TYPE'', Val (Str ''Nowhere'')), (''PARAM'', DictRef 1)]"
    by (simp add: heap_get_def ex_heap_unknown_def)
  have ty: "map_of [(''TYPE'', Val (Str ''Nowhere'')), (''PARAM'', DictRef 1 :: nat cval)] ''TYPE''
      = Some (Val (Str ''Nowhere''))"
    by simp
  have b: "ex_builtin ''Nowhere'' = None"
    by (simp add: ex_builtin_def)
  have c: "ex_custom ''Nowhere'' = None"
    by (simp add: ex_custom_def)
  note r = unknown_type_raises
    [where optim = ex_builtin and easyoptim = ex_custom and name = "''Nowhere''"
       and lr_scheduler = ex_builtin and easy_lr_scheduler = ex_custom
       and sname = "''Nowhere''" and model = ex_model and optimizer = 7,
     OF cfg ty b c cfg ty b c]
  show ?thesis
    by (rule conjI [OF cfg conjI [OF b conjI [OF c r]]])
qed

text \<open>
  Claim C8: when the builder returns, a parameter whose override dictionary is empty is
  not in group 0; it is in one of the added groups, which holds exactly the parameters
  with an empty override dictionary and in which every hyperparameter has the optimizer's
  default.
\<close>

theorem empty_override_group:
  assumes "build_optim optim easyoptim h optim_cfg model = (Inr opt, h')"
    and "p \<in> set model" and "optim_attr p = Some []"
  shows "p \<notin> set (params (param_groups opt ! 0)) \<and>
         (\<exists>i. 0 < i \<and> i < length (param_groups opt) \<and>
              p \<in> set (params (param_groups opt ! i)) \<and>
              params (param_groups opt ! i) = filter (\<lambda>q. optim_attr q = Some []) model \<and>
              map_of (hypers (param_groups opt ! i)) = map_of (defaults opt))"
proof -
  from build_optim_groups [OF assms(1)] obtain hps where
    hps: "special_hps model = Inr hps" and
    len: "length (param_groups opt) = Suc (length hps)" and
    g0: "params (param_groups opt ! 0) = filter (\<lambda>p. optim_attr p = None) model" and
    gs: "\<And>j. j < length hps \<Longrightarrow>
           param_groups opt ! Suc j = special_group (defaults opt) model (hps ! j)"
    by blast
  from hps assms(2,3) obtain j where j: "j < length hps" and "set (hps ! j) = set []"
    by (rule special_hps_index)
  then have e: "hps ! j = []" by simp
  have sel: "filter (has_hp []) model = filter (\<lambda>q. optim_attr q = Some []) model"
    by (rule filter_cong) (auto simp: has_hp_def dict_eq_def split: option.splits)
  have grp: "param_groups opt ! Suc j = special_group (defaults opt) model []"
    using gs [OF j] e by simp
  have "params (param_groups opt ! Suc j) = filter (\<lambda>q. optim_attr q = Some []) model"
    by (simp add: grp special_group_params [of "[]"] sel)
  moreover have "map_of (hypers (param_groups opt ! Suc j)) = map_of (defaults opt)"
    by (rule ext) (simp add: grp special_group_hypers)
  moreover have "p \<notin> set (params (param_groups opt ! 0))"
    using assms(3) by (simp add: g0)
  ultimately show ?thesis
    using j len assms(2,3) by (intro conjI exI [of _ "Suc j"]) simp_all
qed

theorem empty_override_group_witness:
  "build_optim ex_builtin ex_custom ex_heap 0 ex_model = (Inr ex_opt, snd ex_run) \<and>
   w_empty \<in> set ex_model \<and> optim_attr w_empty = Some [] \<and>
   w_empty \<notin> set (params (param_groups ex_opt ! 0)) \<and>
   (\<exists>i. 0 < i \<and> i < length (param_groups ex_opt) \<and>
        w_empty \<in> set (params (param_groups ex_opt ! i)) \<and>
        params (param_groups ex_opt ! i) = filter (\<lambda>q. optim_attr q = Some []) ex_model \<and>
        map_of (hypers (param_groups ex_opt ! i)) = map_of (defaults ex_opt)) \<and>
   params (param_groups ex_opt ! 1) = [w_empty] \<and>
   hypers (param_groups ex_opt ! 1) = [(''lr'', Val (Num (1 / 100)))]"
proof -
  have run: "build_optim ex_builtin ex_custom ex_heap 0 ex_model = (Inr ex_opt, snd ex_run)"
    by code_simp
  have p: "w_empty \<in> set ex_model"
    by (simp add: ex_model_def)
  have a: "optim_attr w_empty = Some []"
    by (simp add: w_empty_def)
  have g: "params (param_groups ex_opt ! 1) = [w_empty]"
    by code_simp
  have y: "hypers (param_groups ex_opt ! 1) = [(''lr'', Val (Num (1 / 100)))]"
    by code_simp
  note c = empty_override_group [OF run p a]
  show ?thesis
    by (rule conjI [OF run conjI [OF p conjI [OF a conjI [OF conjunct1 [OF c]
          conjI [OF conjunct2 [OF c] conjI [OF g y]]]]]])
qed

text \<open>
  Claim C9: neither builder changes a dictionary the caller holds. The heap after a call
  of \<^verbatim>\<open>build_optim\<close> or \<^verbatim>\<open>build_lr_scheduler\<close>, whether it returns or raises, is the heap
  before the call with at most the builder's own copy of \<^verbatim>\<open>PARAM\<close> added at a new address:
  every address of the old heap holds the dictionary it held. (The assignment
  \<^verbatim>\<open>lr_scheduler_cfg['TYPE'] = lr_scheduler_cfg['TYPE']\<close> stores the value that is there,
  and the optimizer is stored in the copy.)
\<close>

theorem builders_keep_config:
  "take (length h) (snd (build_optim optim easyoptim h optim_cfg model)) = h \<and>
   take (length hs)
     (snd (build_lr_scheduler lr_scheduler easy_lr_scheduler hs lr_scheduler_cfg optimizer)) = hs"
  by (simp add: build_optim_heap build_lr_scheduler_heap)

theorem builders_keep_config_witness:
  "snd (build_optim ex_builtin ex_custom ex_heap 0 ex_model)
     = ex_heap @ [[(''lr'', Val (Num (1 / 100)))]] \<and>
   take (length ex_heap) (snd (build_optim ex_builtin ex_custom ex_heap 0 ex_model)) = ex_heap \<and>
   snd (build_lr_scheduler ex_builtin ex_custom ex_sched_heap 0 7)
     = ex_sched_heap @ [[(''step_size'', Val (Num 30)), (''optimizer'', Obj 7)]] \<and>
   take (length ex_sched_heap) (snd (build_lr_scheduler ex_builtin ex_custom ex_sched_heap 0 7))
     = ex_sched_heap"
proof -
  have o: "snd (build_optim ex_builtin ex_custom ex_heap 0 ex_model)
      = ex_heap @ [[(''lr'', Val (Num (1 / 100)))]]"
    by code_simp
  have s: "snd (build_lr_scheduler ex_builtin ex_custom ex_sched_heap 0 7)
      = ex_sched_heap @ [[(''step_size'', Val (Num 30)), (''optimizer'', Obj 7)]]"
    by code_simp
  note c = builders_keep_config
    [where optim = ex_builtin and easyoptim = ex_custom and h = ex_heap and optim_cfg = 0
       and model = ex_model and lr_scheduler = ex_builtin and easy_lr_scheduler = ex_custom
       and hs = ex_sched_heap and lr_scheduler_cfg = 0 and optimizer = 7]
  show ?thesis
    by (rule conjI [OF o conjI [OF conjunct1 [OF c] conjI [OF s conjunct2 [OF c]]]])
qed

text \<open>
  Claim C10, amended: when the builder returns, the groups split the parameters of the
  model. Every parameter that has no override attribute, or whose override dictionary
  does not use the key \<^verbatim>\<open>params\<close>, is in a group: group 0 exactly when it has no override
  attribute, and otherwise the added group that holds the parameters whose override
  dictionary equals its own. No parameter is in two groups. When no override dictionary
  of the model uses the key \<^verbatim>\<open>params\<close>, every group holds parameters of the model only.
\<close>

theorem groups_partition_params:
  assumes "build_optim optim easyoptim h optim_cfg model = (Inr opt, h')"
  shows "(\<forall>p \<in> set model.
            (case optim_attr p of None \<Rightarrow> True | Some d \<Rightarrow> ''params'' \<notin> fst ` set d) \<longrightarrow>
            (\<exists>i < length (param_groups opt).
               p \<in> set (params (param_groups opt ! i)) \<and>
               (i = 0 \<longleftrightarrow> optim_attr p = None) \<and>
               (\<forall>d. optim_attr p = Some d \<longrightarrow>
                  params (param_groups opt ! i) = filter (has_hp d) model))) \<and>
         (\<forall>i < length (param_groups opt). \<forall>j < length (param_groups opt). \<forall>p.
            p \<in> set (params (param_groups opt ! i)) \<and>
            p \<in> set (params (param_groups opt ! j)) \<longrightarrow> i = j) \<and>
         ((\<forall>q \<in> set model. \<forall>d. optim_attr q = Some d \<longrightarrow> ''params'' \<notin> fst ` set d) \<longrightarrow>
            (\<forall>i < length (param_groups opt).
               set (params (param_groups opt ! i)) \<subseteq> set model))"
proof -
  from build_optim_groups [OF assms(1)] obtain hps where
    hps: "special_hps model = Inr hps" and
    len: "length (param_groups opt) = Suc (length hps)" and
    g0: "params (param_groups opt ! 0) = filter (\<lambda>p. optim_attr p = None) model" and
    gs: "\<forall>j < length hps.
           param_groups opt ! Suc j = special_group (defaults opt) model (hps ! j)" and
    dis: "disjoint_groups (param_groups opt)"
    by blast
  note mem = group_member [OF hps len g0 gs]
  have cover: "\<exists>i < length (param_groups opt).
      p \<in> set (params (param_groups opt ! i)) \<and> (i = 0 \<longleftrightarrow> optim_attr p = None) \<and>
      (\<forall>d. optim_attr p = Some d \<longrightarrow> params (param_groups opt ! i) = filter (has_hp d) model)"
    if p: "p \<in> set model"
      and key: "case optim_attr p of None \<Rightarrow> True | Some d \<Rightarrow> ''params'' \<notin> fst ` set d" for p
  proof (cases "optim_attr p")
    case None
    with p len g0 show ?thesis by (intro exI [of _ 0]) simp
  next
    case (Some d)
    from hps p Some obtain j where j: "j < length hps" and sj: "set (hps ! j) = set d"
      by (rule special_hps_index)
    from j len have i: "Suc j < length (param_groups opt)" by simp
    from key Some sj have k: "''params'' \<notin> fst ` set (hps ! j)" by simp
    then have k': "Suc j = 0 \<or> ''params'' \<notin> fst ` set (hps ! (Suc j - 1))" by simp
    have same: "has_hp (hps ! j) = has_hp d"
      by (rule ext) (simp add: has_hp_def dict_eq_def sj split: option.split)
    have "params (param_groups opt ! Suc j) = filter (has_hp d) model"
      using gs j by (simp add: special_group_params [OF k] same)
    moreover have "p \<in> set (params (param_groups opt ! Suc j))"
      using p Some sj by (simp add: mem [OF i k'])
    ultimately show ?thesis using i Some by (intro exI [of _ "Suc j"]) simp
  qed
  have disjoint: "i = j"
    if "i < length (param_groups opt)" and "j < length (param_groups opt)"
      and "p \<in> set (params (param_groups opt ! i))"
      and "p \<in> set (params (param_groups opt ! j))" for i j p
    using disjoint_groupsD [OF dis that] .
  have sub: "set (params (param_groups opt ! i)) \<subseteq> set model"
    if all: "\<forall>q \<in> set model. \<forall>d. optim_attr q = Some d \<longrightarrow> ''params'' \<notin> fst ` set d"
      and i: "i < length (param_groups opt)" for i
  proof -
    have "i = 0 \<or> ''params'' \<notin> fst ` set (hps ! (i - 1))"
    proof (cases i)
      case 0
      then show ?thesis by simp
    next
      case (Suc j)
      with i len have "hps ! j \<in> set hps" by simp
      from special_hps_subset [OF hps this] all have "''params'' \<notin> fst ` set (hps ! j)"
        by blast
      with Suc show ?thesis by simp
    qed
    from mem [OF i this] show ?thesis by blast
  qed
  from cover disjoint sub show ?thesis by blast
qed

text \<open>
  Without the proviso the claim fails: \<^verbatim>\<open>{'params': ()}\<close> is a dictionary whose one value
  can be hashed, and the parameter that carries it is in no group of the optimizer that is
  returned.
\<close>

theorem groups_partition_params_key_counterexample:
  "\<not> isl (fst ex_run_params3) \<and>
   optim_attr w_params = Some [(''params'', Tuple [])] \<and>
   hashable (Tuple []) \<and>
   map params (param_groups (projr (fst ex_run_params3))) = [[w_plain], [w_lr1], []] \<and>
   w_params \<notin> set (concat (map params (param_groups (projr (fst ex_run_params3)))))"
  by code_simp

text \<open>
  The last part needs its proviso: with \<^verbatim>\<open>{'params': (t,)}\<close> for a tensor \<open>t\<close> that is no
  parameter of the model, the group that is added holds \<open>t\<close>.
\<close>

theorem group_outside_model_example:
  "\<not> isl (fst ex_run_out) \<and>
   map (map pid \<circ> params) (param_groups (projr (fst ex_run_out))) = [[0], [99]] \<and>
   pid w_plain = 0 \<and> pid w_out = 11"
  by code_simp

theorem groups_partition_params_witness:
  "build_optim ex_builtin ex_custom ex_heap 0 ex_model = (Inr ex_opt, snd ex_run) \<and>
   w_lr1' \<in> set ex_model \<and> optim_attr w_lr1' = Some [(''lr'', Num (1 / 10))] \<and>
   ''params'' \<notin> fst ` set [(''lr'', Num (1 / 10))] \<and>
   (\<exists>i < length (param_groups ex_opt).
      w_lr1' \<in> set (params (param_groups ex_opt ! i)) \<and> i \<noteq> 0 \<and>
      params (param_groups ex_opt ! i) = filter (has_hp [(''lr'', Num (1 / 10))]) ex_model) \<and>
   \<not> (\<exists>i < length (param_groups ex_opt). \<exists>j < length (param_groups ex_opt).
        i \<noteq> j \<and> w_lr1' \<in> set (params (param_groups ex_opt ! i)) \<and>
        w_lr1' \<in> set (params (param_groups ex_opt ! j))) \<and>
   set (params (param_groups ex_opt ! 0)) \<subseteq> set ex_model \<and>
   map params (param_groups ex_opt) =
     [[w_plain], [w_empty], [w_lr1, w_lr1'], [w_ab, w_ba], [w_lr2]]"
proof -
  have run: "build_optim ex_builtin ex_custom ex_heap 0 ex_model = (Inr ex_opt, snd ex_run)"
    by code_simp
  have p: "w_lr1' \<in> set ex_model"
    by (simp add: ex_model_def)
  have a: "optim_attr w_lr1' = Some [(''lr'', Num (1 / 10))]"
    by (simp add: w_lr1'_def)
  have k: "''params'' \<notin> fst ` set [(''lr'', Num (1 / 10))]"
    by simp
  have g: "map params (param_groups ex_opt) =
      [[w_plain], [w_empty], [w_lr1, w_lr1'], [w_ab, w_ba], [w_lr2]]"
    by code_simp
  then have "length (map params (param_groups ex_opt)) = 5"
    by simp
  then have n: "0 < length (param_groups ex_opt)"
    by simp
  note c = groups_partition_params [OF run]
  have pre: "case optim_attr w_lr1' of None \<Rightarrow> True | Some d \<Rightarrow> ''params'' \<notin> fst ` set d"
    by (simp add: a)
  note e = conjunct1 [OF c, THEN bspec, OF p, THEN mp, OF pre]
  from e obtain i where i: "i < length (param_groups ex_opt)"
    and m: "w_lr1' \<in> set (params (param_groups ex_opt ! i))"
    and z: "i = 0 \<longleftrightarrow> optim_attr w_lr1' = None"
    and f: "\<forall>d. optim_attr w_lr1' = Some d \<longrightarrow>
      params (param_groups ex_opt ! i) = filter (has_hp d) ex_model"
    by (elim exE conjE)
  from z have i0: "i \<noteq> 0"
    by (simp add: a)
  from f [THEN spec, THEN mp, OF a]
  have q: "params (param_groups ex_opt ! i) = filter (has_hp [(''lr'', Num (1 / 10))]) ex_model" .
  have cover: "\<exists>i < length (param_groups ex_opt).
      w_lr1' \<in> set (params (param_groups ex_opt ! i)) \<and> i \<noteq> 0 \<and>
      params (param_groups ex_opt ! i) = filter (has_hp [(''lr'', Num (1 / 10))]) ex_model"
    by (rule exI [of _ i]) (rule conjI [OF i conjI [OF m conjI [OF i0 q]]])
  from conjunct1 [OF conjunct2 [OF c]]
  have disjoint: "\<not> (\<exists>i < length (param_groups ex_opt). \<exists>j < length (param_groups ex_opt).
      i \<noteq> j \<and> w_lr1' \<in> set (params (param_groups ex_opt ! i)) \<and>
      w_lr1' \<in> set (params (param_groups ex_opt ! j)))"
    by blast
  have free: "\<forall>q \<in> set ex_model. \<forall>d. optim_attr q = Some d \<longrightarrow> ''params'' \<notin> fst ` set d"
    by (auto simp: ex_model_def w_plain_def w_lr1_def w_ab_def w_lr2_def w_ba_def w_empty_def
        w_lr1'_def)
  from conjunct2 [OF conjunct2 [OF c], THEN mp, OF free] n
  have sub: "set (params (param_groups ex_opt ! 0)) \<subseteq> set ex_model"
    by blast
  show ?thesis
    by (rule conjI [OF run conjI [OF p conjI [OF a conjI [OF k conjI [OF cover
          conjI [OF disjoint conjI [OF sub g]]]]]]])
qed

end
